theory Spec2Isabelle
  imports Complex_Main "HOL-Library.Word" "HOL-Library.Signed_Division"
begin

section \<open>The seizure detector sketch as HOL functions\<close>

text \<open>
  The sketch \<^verbatim>\<open>seizure_detector.ino\<close> runs on an 8-bit AVR board: \<^verbatim>\<open>int\<close> is a
  16-bit two's complement integer, \<^verbatim>\<open>unsigned long\<close> is 32 bits wide and \<^verbatim>\<open>byte\<close>
  is 8 bits wide. The signed 16-bit values are kept as \<open>16 word\<close> and read with \<open>sint\<close>
  wherever the program compares or divides them as signed numbers.
\<close>

type_synonym u8 = "8 word"
type_synonym i16 = "16 word"
type_synonym u16 = "16 word"
type_synonym u32 = "32 word"

subsection \<open>General settings (lines 57 to 72)\<close>

definition mon_freq_ch_min :: nat where "mon_freq_ch_min = 6"
definition mon_freq_ch_max :: nat where "mon_freq_ch_max = 10"
definition mon_thresh :: i16 where "mon_thresh = 7"
definition mon_warn_millis :: u32 where "mon_warn_millis = 2000"
definition mon_alarm_millis :: u32 where "mon_alarm_millis = 5000"
definition mon_reset_millis :: u32 where "mon_reset_millis = 2000"
definition log_millis :: u32 where "log_millis = 60000"

subsection \<open>Global variables (lines 74 to 87)\<close>

text \<open>
  \<open>position\<close> is the \<^verbatim>\<open>volatile byte\<close> write cursor, \<open>capture\<close> the array
  \<^verbatim>\<open>int16_t capture[FFT_N]\<close> and \<open>spectrum\<close> the array \<^verbatim>\<open>uint16_t spectrum[FFT_N/2]\<close>.
  The macro \<^verbatim>\<open>FFT_N\<close> comes from the header \<^verbatim>\<open>ffft.h\<close> of the transform library;
  every function below that uses it takes it as the parameter \<open>N\<close>.
\<close>

record state =
  mon_thresh_exceeded :: bool
  mon_warn_state :: bool
  mon_alarm_state :: bool
  mon_reset_state :: bool
  mon_lastreset_millis :: u32
  mon_thresh_millis :: u32
  last_log_millis :: u32
  position :: u8
  capture :: "i16 list"
  spectrum :: "u16 list"

subsection \<open>What one pass of the main loop reads from its surroundings\<close>

text \<open>
  Every call of \<^verbatim>\<open>millis()\<close> (milliseconds since start, 32 bits, rolling over) and of
  \<^verbatim>\<open>now()\<close> (the Time library's clock, whole seconds as a 32-bit \<^verbatim>\<open>time_t\<close>) is a
  separate reading; the field names carry the line of the call. \<open>open_ok\<close> is the
  result of \<^verbatim>\<open>logfile.isOpen()\<close> after the open at line 301, \<open>errorCode_102\<close> the
  value of \<^verbatim>\<open>sdCard.errorCode\<close> that \<^verbatim>\<open>error_P\<close> reads at line 102, and \<open>write_ok\<close>
  tells whether the prints and the close of lines 303 to 321 reach the card when the
  file is open; the program looks at none of their results.
\<close>

record env =
  millis_268 :: u32
  millis_270 :: u32
  millis_274 :: u32
  now_283 :: u32
  millis_289 :: u32
  millis_297 :: u32
  now_305 :: u32
  millis_322 :: u32
  open_ok :: bool
  errorCode_102 :: u8
  write_ok :: bool

subsection \<open>What one pass of the main loop emits\<close>

datatype message =
    NewEvent | AlarmMsg | WarningMsg | PreAlarmMsg | EventReset
  | WritingLog | ErrorMsg string | SdErrorMsg u8 | SpectrumDump "u16 list"

text \<open>The lines that \<^verbatim>\<open>error_P\<close> prints.\<close>

fun error_line :: "message \<Rightarrow> bool" where
  "error_line (ErrorMsg str) = True"
| "error_line (SdErrorMsg code) = True"
| "error_line m = False"

datatype level_tag = TagWarning | TagAlarm | TagPoss | TagBlank

record log_record =
  rec_now :: u32
  rec_tag :: level_tag
  rec_spectrum :: "u16 list"
  rec_raw :: "i16 list"

text \<open>\<open>Tone f d\<close> is \<^verbatim>\<open>tone(AUDIO_ALARM_PIN, f, d)\<close>, with \<open>None\<close> for the call without
  a duration; \<open>NoTone\<close> is \<^verbatim>\<open>noTone(AUDIO_ALARM_PIN)\<close>.\<close>

datatype tone_call = Tone nat "nat option" | NoTone

record out =
  serial :: "message list"
  logfile :: "log_record list"
  buzzer :: "tone_call list"

definition say :: "message list \<Rightarrow> out" where
  "say ms = \<lparr>serial = ms, logfile = [], buzzer = []\<rparr>"

definition out_app :: "out \<Rightarrow> out \<Rightarrow> out" where
  "out_app a b =
     \<lparr>serial = serial a @ serial b, logfile = logfile a @ logfile b, buzzer = buzzer a @ buzzer b\<rparr>"

subsection \<open>setup (lines 110 to 162)\<close>

text \<open>The globals after \<^verbatim>\<open>setup()\<close>: the initialisers of lines 75 to 87 and the
  assignments of lines 149 and 150; \<open>t\<close> is the reading of \<^verbatim>\<open>now()\<close> at line 150.\<close>

definition setup_globals :: "nat \<Rightarrow> u32 \<Rightarrow> state" where
  "setup_globals N t =
     \<lparr>mon_thresh_exceeded = False, mon_warn_state = False, mon_alarm_state = False,
      mon_reset_state = True, mon_lastreset_millis = t, mon_thresh_millis = 0,
      last_log_millis = 0, position = 0, capture = replicate N 0,
      spectrum = replicate (N div 2) 0\<rparr>"

subsection \<open>The timer interrupt (lines 168 to 182)\<close>

text \<open>
  \<^verbatim>\<open>(x+y+z)/3\<close> on 16-bit \<^verbatim>\<open>int\<close>: the sum in 16 bits, the quotient truncated
  towards zero.
\<close>

definition sample :: "i16 \<Rightarrow> i16 \<Rightarrow> i16 \<Rightarrow> i16" where
  "sample x y z = word_of_int (sint (x + y + z) sdiv 3)"

type_synonym reading = "i16 \<times> i16 \<times> i16"

definition ISR :: "nat \<Rightarrow> reading \<Rightarrow> state \<Rightarrow> state" where
  "ISR N r s =
     (if N \<le> unat (position s) then s
      else case r of (x, y, z) \<Rightarrow>
        s\<lparr>capture := (capture s)[unat (position s) := sample x y z],
          position := position s + 1\<rparr>)"

text \<open>A run of timer ticks with no pass of the main loop in between.\<close>

definition ticks :: "nat \<Rightarrow> state \<Rightarrow> reading list \<Rightarrow> state" where
  "ticks N s rs = foldl (\<lambda>s r. ISR N r s) s rs"

subsection \<open>The main loop (lines 233 to 329)\<close>

text \<open>
  Lines 258 to 262. \<^verbatim>\<open>maxChan\<close> is an \<^verbatim>\<open>int\<close> and \<^verbatim>\<open>spectrum[i]\<close> a
  \<^verbatim>\<open>uint16_t\<close>: the assignment keeps the 16 bits, and the comparison
  \<^verbatim>\<open>spectrum[i]>maxChan\<close> converts \<^verbatim>\<open>maxChan\<close> to unsigned, so it is the unsigned
  order of the words.
\<close>

definition maxChan_of :: "u16 list \<Rightarrow> i16" where
  "maxChan_of sp =
     foldl (\<lambda>m i. if m < sp ! i then sp ! i else m) (sp ! mon_freq_ch_min)
       [mon_freq_ch_min ..< Suc mon_freq_ch_max]"

text \<open>Lines 264 to 294. \<^verbatim>\<open>maxChan>=mon_thresh\<close> compares two \<^verbatim>\<open>int\<close>s, hence the
  signed order; the durations are differences of \<^verbatim>\<open>unsigned long\<close>s.\<close>

definition alarm_logic :: "i16 \<Rightarrow> env \<Rightarrow> state \<Rightarrow> state \<times> out" where
  "alarm_logic maxChan e s =
     (if mon_thresh \<le>s maxChan then
        let s1 = (if \<not> mon_thresh_exceeded s
                  then s\<lparr>mon_thresh_exceeded := True, mon_thresh_millis := millis_268 e\<rparr>
                  else s);
            p1 = (if \<not> mon_thresh_exceeded s then [NewEvent] else [])
        in if mon_alarm_millis \<le> millis_270 e - mon_thresh_millis s1
           then (s1\<lparr>mon_alarm_state := True, mon_warn_state := False\<rparr>, say (p1 @ [AlarmMsg]))
           else if mon_warn_millis \<le> millis_274 e - mon_thresh_millis s1
           then (s1\<lparr>mon_warn_state := True\<rparr>, say (p1 @ [WarningMsg]))
           else (s1, say (p1 @ [PreAlarmMsg]))
      else if mon_thresh_exceeded s
      then (s\<lparr>mon_lastreset_millis := now_283 e, mon_thresh_exceeded := False\<rparr>,
            say [EventReset])
      else if mon_reset_millis < millis_289 e - mon_lastreset_millis s
      then (s\<lparr>mon_warn_state := False, mon_alarm_state := False\<rparr>,
            \<lparr>serial = [], logfile = [], buzzer = [NoTone]\<rparr>)
      else (s, say []))"

text \<open>Lines 306 to 309: the level written to the log record.\<close>

definition tag_of :: "state \<Rightarrow> level_tag" where
  "tag_of s =
     (if mon_warn_state s then TagWarning
      else if mon_alarm_state s then TagAlarm
      else if mon_thresh_exceeded s then TagPoss
      else TagBlank)"

text \<open>
  Lines 99 to 108: \<^verbatim>\<open>error_P\<close> prints the message, then the error code of the card
  when it is not zero, and returns (the \<^verbatim>\<open>while(1)\<close> is commented out).
\<close>

definition error_P :: "string \<Rightarrow> u8 \<Rightarrow> message list" where
  "error_P str errorCode =
     ErrorMsg str # (if errorCode \<noteq> 0 then [SdErrorMsg errorCode] else [])"

text \<open>
  Lines 297 to 323. \<^verbatim>\<open>error("create")\<close> is called when the file is not open, and
  the record is printed to the file object whether it is open or not, with no
  result checked; the record reaches the card when the file is open and the writes
  succeed.
\<close>

definition log_logic :: "nat \<Rightarrow> env \<Rightarrow> state \<Rightarrow> state \<times> out" where
  "log_logic N e s =
     (if mon_thresh_exceeded s \<or> last_log_millis s + log_millis < millis_297 e then
        let r = \<lparr>rec_now = now_305 e, rec_tag = tag_of s,
                 rec_spectrum = take (N div 2) (spectrum s), rec_raw = take N (capture s)\<rparr>
        in (s\<lparr>last_log_millis := millis_322 e\<rparr>,
            \<lparr>serial = WritingLog #
               (if open_ok e then [] else error_P ''create'' (errorCode_102 e)),
             logfile = (if open_ok e \<and> write_ok e then [r] else []),
             buzzer = []\<rparr>)
      else (s, say []))"

text \<open>Lines 324 to 327.\<close>

definition alert_logic :: "state \<Rightarrow> out" where
  "alert_logic s =
     \<lparr>serial = [], logfile = [],
      buzzer = (if mon_warn_state s then [Tone 200 (Some 100)] else []) @
               (if mon_alarm_state s then [Tone 100 None] else [])\<rparr>"

text \<open>
  Lines 238 to 294, the first half of the body: the transform reads \<open>capture\<close>
  (\<open>fft\<close> stands for \<^verbatim>\<open>fft_input\<close>, \<^verbatim>\<open>fft_execute\<close> and \<^verbatim>\<open>fft_output\<close> of the
  transform library), the cursor is reset, the spectrum is printed and the alarm
  is decided. Of the serial output the date, the time and the count of free memory
  are left out.
\<close>

definition loop_front :: "(i16 list \<Rightarrow> u16 list) \<Rightarrow> env \<Rightarrow> state \<Rightarrow> state \<times> out" where
  "loop_front fft e s =
     (let s1 = s\<lparr>spectrum := fft (capture s), position := 0\<rparr>;
          (s2, o2) = alarm_logic (maxChan_of (spectrum s1)) e s1
      in (s2, out_app (say [SpectrumDump (spectrum s1)]) o2))"

text \<open>Lines 296 to 327, the second half of the body.\<close>

definition loop_back :: "nat \<Rightarrow> env \<Rightarrow> state \<Rightarrow> state \<times> out" where
  "loop_back N e s =
     (let (s3, o3) = log_logic N e s in (s3, out_app o3 (alert_logic s3)))"

text \<open>
  One pass of \<^verbatim>\<open>loop()\<close> during which the timer fires for the readings \<open>mid\<close>
  after the cursor reset of line 244 and before the raw samples are logged at
  line 316. Interrupts are enabled throughout \<^verbatim>\<open>loop()\<close>.
\<close>

definition loop_preempted ::
  "nat \<Rightarrow> (i16 list \<Rightarrow> u16 list) \<Rightarrow> env \<Rightarrow> reading list \<Rightarrow> state \<Rightarrow> state \<times> out" where
  "loop_preempted N fft e mid s =
     (if unat (position s) = N then
        let (s2, o2) = loop_front fft e s;
            (s3, o3) = loop_back N e (ticks N s2 mid)
        in (s3, out_app o2 o3)
      else (s, say []))"

text \<open>One pass of \<^verbatim>\<open>loop()\<close> that no timer tick interrupts.\<close>

definition loop :: "nat \<Rightarrow> (i16 list \<Rightarrow> u16 list) \<Rightarrow> env \<Rightarrow> state \<Rightarrow> state \<times> out" where
  "loop N fft e s = loop_preempted N fft e [] s"

subsection \<open>Example inputs\<close>

text \<open>The readings of a pass during which every call of \<^verbatim>\<open>millis()\<close> returns \<open>ms\<close>
  and every call of \<^verbatim>\<open>now()\<close> returns \<open>secs\<close>; the card reports no error code and
  takes what is written to an open file.\<close>

definition env_at :: "u32 \<Rightarrow> u32 \<Rightarrow> bool \<Rightarrow> env" where
  "env_at ms secs ok =
     \<lparr>millis_268 = ms, millis_270 = ms, millis_274 = ms, now_283 = secs, millis_289 = ms,
      millis_297 = ms, now_305 = secs, millis_322 = ms, open_ok = ok,
      errorCode_102 = 0, write_ok = True\<rparr>"

subsection \<open>Samples of a list of readings\<close>

definition sample_of :: "reading \<Rightarrow> i16" where
  "sample_of r = (case r of (x, y, z) \<Rightarrow> sample x y z)"

subsection \<open>Completed windows\<close>

text \<open>
  A window is the run of timer ticks that fills the buffer, followed by the pass
  of the main loop that finds it full; the pass comes with its own readings.
  \<open>passes\<close> lists the state and the output after every window.
\<close>

type_synonym window = "reading list \<times> env"

definition pass ::
  "nat \<Rightarrow> (i16 list \<Rightarrow> u16 list) \<Rightarrow> state \<Rightarrow> window \<Rightarrow> state \<times> out" where
  "pass N fft s w = loop N fft (snd w) (ticks N s (fst w))"

fun passes ::
  "nat \<Rightarrow> (i16 list \<Rightarrow> u16 list) \<Rightarrow> state \<Rightarrow> window list \<Rightarrow> (state \<times> out) list" where
  "passes N fft s [] = []"
| "passes N fft s (w # ws) = pass N fft s w # passes N fft (fst (pass N fft s w)) ws"

text \<open>The buffer is empty and has its \<open>N\<close> cells.\<close>

definition armed :: "nat \<Rightarrow> state \<Rightarrow> bool" where
  "armed N s \<longleftrightarrow> position s = 0 \<and> length (capture s) = N"

text \<open>The value of \<^verbatim>\<open>maxChan\<close> in the pass of a window that starts on an empty
  buffer: the first \<open>N\<close> ticks are stored, the transform reads them.\<close>

definition band_energy :: "nat \<Rightarrow> (i16 list \<Rightarrow> u16 list) \<Rightarrow> window \<Rightarrow> i16" where
  "band_energy N fft w = maxChan_of (fft (map sample_of (take N (fst w))))"

text \<open>
  The durations that the passes of a run compute at lines 270 and 274, taken from
  the start \<open>t0\<close>, in the order in which they are computed.
\<close>

definition elapsed_readings :: "u32 \<Rightarrow> window list \<Rightarrow> u32 list" where
  "elapsed_readings t0 ws =
     concat (map (\<lambda>w. [millis_270 (snd w) - t0, millis_274 (snd w) - t0]) ws)"

subsection \<open>Example inputs for windows\<close>

text \<open>A stand-in for the transform with 64 bins, every bin the first sample of the
  window, and a window of 128 ticks on which all three channels read \<open>v\<close>.\<close>

definition example_fft :: "i16 list \<Rightarrow> u16 list" where
  "example_fft c = replicate 64 (hd c)"

definition window_of :: "i16 \<Rightarrow> env \<Rightarrow> window" where
  "window_of v e = (replicate 128 (v, v, v), e)"

text \<open>
  Windows two seconds apart on a monitor whose clock is set (\<^verbatim>\<open>now()\<close> counts the
  seconds since 1970): four windows above the threshold, then two below it, the
  last one 1990 ms after the one before.
\<close>

definition seizure_then_quiet :: "window list" where
  "seizure_then_quiet =
     [window_of 9 (env_at 10000 1383000010 True), window_of 9 (env_at 12000 1383000012 True),
      window_of 9 (env_at 14000 1383000014 True), window_of 9 (env_at 16000 1383000016 True),
      window_of 3 (env_at 18000 1383000018 True), window_of 3 (env_at 19990 1383000019 True)]"

section \<open>The capture buffer\<close>

lemma ticks_Nil: "ticks N s [] = s"
  by (simp add: ticks_def)

lemma ticks_Cons: "ticks N s (r # rs) = ticks N (ISR N r s) rs"
  by (simp add: ticks_def)

lemma ticks_append: "ticks N s (rs @ rs') = ticks N (ticks N s rs) rs'"
  by (simp add: ticks_def)

lemma unat_succ_byte:
  fixes p :: u8
  assumes "unat p < N" "N \<le> 255"
  shows "unat (p + 1) = Suc (unat p)"
proof -
  have "unat p + 1 < 2 ^ 8" using assms by simp
  then show ?thesis by (simp add: unat_word_ariths)
qed

lemma ISR_full: "N \<le> unat (position s) \<Longrightarrow> ISR N r s = s"
  by (simp add: ISR_def)

lemma ISR_write:
  "unat (position s) < N \<Longrightarrow>
   ISR N r s = s\<lparr>capture := (capture s)[unat (position s) := sample_of r],
                 position := position s + 1\<rparr>"
  by (simp add: ISR_def sample_of_def split: prod.splits)

lemma ticks_fill:
  assumes "N \<le> 255" "unat (position s) \<le> N" "length (capture s) = N"
  shows "ticks N s rs =
         s\<lparr>capture := take (unat (position s)) (capture s) @
                       map sample_of (take (N - unat (position s)) rs) @
                       drop (unat (position s) + min (length rs) (N - unat (position s))) (capture s),
           position := position s + of_nat (min (length rs) (N - unat (position s)))\<rparr>"
  using assms(2,3)
proof (induction rs arbitrary: s)
  case Nil
  then show ?case by (simp add: ticks_Nil)
next
  case (Cons r rs)
  show ?case
  proof (cases "unat (position s) < N")
    case False
    with Cons.prems have full: "unat (position s) = N" by simp
    then have "ISR N r s = s" by (simp add: ISR_full)
    then have "ticks N s (r # rs) = ticks N s rs" by (simp add: ticks_Cons)
    also have "\<dots> = s" using Cons.IH [OF Cons.prems] full Cons.prems by simp
    finally show ?thesis using full Cons.prems by simp
  next
    case True
    let ?p = "unat (position s)"
    let ?s' = "ISR N r s"
    have s': "?s' = s\<lparr>capture := (capture s)[?p := sample_of r], position := position s + 1\<rparr>"
      using True by (rule ISR_write)
    have p': "unat (position ?s') = Suc ?p"
      using True assms(1) by (simp add: s' unat_succ_byte)
    have l': "length (capture ?s') = N" using Cons.prems by (simp add: s')
    have le': "unat (position ?s') \<le> N" using True p' by simp
    have tk: "take (Suc ?p) ((capture s)[?p := sample_of r]) = take ?p (capture s) @ [sample_of r]"
      using True Cons.prems by (simp add: take_Suc_conv_app_nth)
    have mn: "min (Suc (length rs)) (N - ?p) = Suc (min (length rs) (N - Suc ?p))"
      using True by simp
    have "N - ?p = Suc (N - Suc ?p)" using True by simp
    then have tk2: "take (N - ?p) (r # rs) = r # take (N - Suc ?p) rs"
      by (simp only: take_Suc_Cons)
    show ?thesis
      unfolding ticks_Cons
      apply (subst Cons.IH [OF le' l'])
      apply (simp only: p')
      apply (simp add: s' tk tk2 mn add.assoc)
      done
  qed
qed

lemma ticks_from_empty:
  assumes "N \<le> 255" "position s = 0" "length (capture s) = N"
  shows "ticks N s rs =
         s\<lparr>capture := map sample_of (take N rs) @ drop (min (length rs) N) (capture s),
           position := of_nat (min (length rs) N)\<rparr>"
  using ticks_fill [of N s rs] assms by simp

lemma unat_of_nat_byte: "n \<le> 255 \<Longrightarrow> unat (of_nat n :: u8) = n"
  by (simp add: unat_of_nat)

lemma loop_full:
  "unat (position s) = N \<Longrightarrow>
   fst (loop N fft e s) =
     (fst (loop_back N e (fst (loop_front fft e s))))"
  by (simp add: loop_def loop_preempted_def ticks_def case_prod_beta)

lemma alarm_logic_buffer:
  "capture (fst (alarm_logic m e s)) = capture s"
  "position (fst (alarm_logic m e s)) = position s"
  "spectrum (fst (alarm_logic m e s)) = spectrum s"
  by (simp_all add: alarm_logic_def Let_def)

lemma log_logic_buffer:
  "capture (fst (log_logic N e s)) = capture s"
  "position (fst (log_logic N e s)) = position s"
  "spectrum (fst (log_logic N e s)) = spectrum s"
  by (simp_all add: log_logic_def Let_def)

lemma loop_back_buffer:
  "capture (fst (loop_back N e s)) = capture s"
  "position (fst (loop_back N e s)) = position s"
  "spectrum (fst (loop_back N e s)) = spectrum s"
  by (simp_all add: loop_back_def log_logic_buffer case_prod_beta)

lemma loop_front_buffer:
  "capture (fst (loop_front fft e s)) = capture s"
  "position (fst (loop_front fft e s)) = 0"
  "spectrum (fst (loop_front fft e s)) = fft (capture s)"
  by (simp_all add: loop_front_def Let_def alarm_logic_buffer case_prod_beta)

lemma loop_buffer:
  assumes "unat (position s) = N"
  shows "capture (fst (loop N fft e s)) = capture s"
    "position (fst (loop N fft e s)) = 0"
    "spectrum (fst (loop N fft e s)) = fft (capture s)"
  by (simp_all add: loop_full [OF assms] loop_back_buffer loop_front_buffer)

text \<open>
  Claim C2. For a buffer of capacity \<open>N\<close> that the byte cursor can count
  (\<open>N \<le> 255\<close>), started empty: after any run of timer ticks the cursor is the
  number of ticks, capped at \<open>N\<close>, and the samples stand in write order at the
  indices below the cursor; once \<open>N\<close> ticks have come, a further tick changes
  nothing; the pass of the main loop that finds the buffer full hands the \<open>N\<close>
  samples in write order to the transform, leaves them in place and sets the cursor
  to zero, after which the next tick writes index 0 again.
\<close>

theorem capture_buffer_protocol:
  assumes "N \<le> 255" "position s = 0" "length (capture s) = N"
  shows "unat (position (ticks N s rs)) = min (length rs) N \<and>
         take (min (length rs) N) (capture (ticks N s rs)) = map sample_of (take N rs) \<and>
         length (capture (ticks N s rs)) = N \<and>
         (N \<le> length rs \<longrightarrow>
            ISR N r (ticks N s rs) = ticks N s rs \<and>
            capture (ticks N s rs) = map sample_of (take N rs) \<and>
            spectrum (fst (loop N fft e (ticks N s rs))) = fft (map sample_of (take N rs)) \<and>
            capture (fst (loop N fft e (ticks N s rs))) = map sample_of (take N rs) \<and>
            position (fst (loop N fft e (ticks N s rs))) = 0 \<and>
            (0 < N \<longrightarrow>
               capture (ISR N r (fst (loop N fft e (ticks N s rs)))) ! 0 = sample_of r \<and>
               position (ISR N r (fst (loop N fft e (ticks N s rs)))) = 1))"
proof -
  let ?k = "min (length rs) N"
  let ?t = "ticks N s rs"
  have t: "?t = s\<lparr>capture := map sample_of (take N rs) @ drop ?k (capture s),
                   position := of_nat ?k\<rparr>"
    using assms by (rule ticks_from_empty)
  have k: "?k \<le> 255" using assms(1) by simp
  have pos: "unat (position ?t) = ?k"
    using unat_of_nat_byte [OF k] by (simp add: t)
  have len: "length (capture ?t) = N"
    using assms(3) by (simp add: t)
  have tk: "take ?k (capture ?t) = map sample_of (take N rs)"
    by (simp add: t)
  have full: "N \<le> length rs \<longrightarrow>
            ISR N r ?t = ?t \<and>
            capture ?t = map sample_of (take N rs) \<and>
            spectrum (fst (loop N fft e ?t)) = fft (map sample_of (take N rs)) \<and>
            capture (fst (loop N fft e ?t)) = map sample_of (take N rs) \<and>
            position (fst (loop N fft e ?t)) = 0 \<and>
            (0 < N \<longrightarrow>
               capture (ISR N r (fst (loop N fft e ?t))) ! 0 = sample_of r \<and>
               position (ISR N r (fst (loop N fft e ?t))) = 1)"
  proof
    assume ge: "N \<le> length rs"
    then have pN: "unat (position ?t) = N" using pos by simp
    have noop: "ISR N r ?t = ?t" using pN by (simp add: ISR_full)
    have cap: "capture ?t = map sample_of (take N rs)"
      using ge assms(3) by (simp add: t)
    note lb = loop_buffer [OF pN, of fft e]
    let ?d = "fst (loop N fft e ?t)"
    have rearm: "0 < N \<longrightarrow> capture (ISR N r ?d) ! 0 = sample_of r \<and> position (ISR N r ?d) = 1"
    proof
      assume "0 < N"
      then have "unat (position ?d) < N" by (simp add: lb)
      then have "ISR N r ?d = ?d\<lparr>capture := (capture ?d)[unat (position ?d) := sample_of r],
                 position := position ?d + 1\<rparr>" by (rule ISR_write)
      then show "capture (ISR N r ?d) ! 0 = sample_of r \<and> position (ISR N r ?d) = 1"
        using \<open>0 < N\<close> len by (simp add: lb)
    qed
    show "ISR N r ?t = ?t \<and>
            capture ?t = map sample_of (take N rs) \<and>
            spectrum (fst (loop N fft e ?t)) = fft (map sample_of (take N rs)) \<and>
            capture (fst (loop N fft e ?t)) = map sample_of (take N rs) \<and>
            position (fst (loop N fft e ?t)) = 0 \<and>
            (0 < N \<longrightarrow>
               capture (ISR N r (fst (loop N fft e ?t))) ! 0 = sample_of r \<and>
               position (ISR N r (fst (loop N fft e ?t))) = 1)"
      using noop cap rearm by (simp add: lb)
  qed
  show ?thesis using pos len tk full by blast
qed

theorem capture_buffer_protocol_witness:
  "(128::nat) \<le> 255 \<and> position (setup_globals 128 0) = 0 \<and>
   length (capture (setup_globals 128 0)) = 128 \<and>
   (128::nat) \<le> length (replicate 130 (3::i16, 4::i16, 5::i16)) \<and> (0::nat) < 128 \<and>
   unat (position (ticks 128 (setup_globals 128 0) (replicate 130 (3, 4, 5)))) = 128 \<and>
   ISR 128 (6, 7, 8) (ticks 128 (setup_globals 128 0) (replicate 130 (3, 4, 5))) =
     ticks 128 (setup_globals 128 0) (replicate 130 (3, 4, 5)) \<and>
   capture (ticks 128 (setup_globals 128 0) (replicate 130 (3, 4, 5))) =
     replicate 128 (sample_of (3, 4, 5)) \<and>
   spectrum (fst (loop 128 (take 64) (env_at 2000 2 True) (ticks 128 (setup_globals 128 0) (replicate 130 (3, 4, 5))))) =
     replicate 64 (sample_of (3, 4, 5)) \<and>
   position (fst (loop 128 (take 64) (env_at 2000 2 True) (ticks 128 (setup_globals 128 0) (replicate 130 (3, 4, 5))))) = 0 \<and>
   position (ISR 128 (6, 7, 8)
     (fst (loop 128 (take 64) (env_at 2000 2 True) (ticks 128 (setup_globals 128 0) (replicate 130 (3, 4, 5)))))) = 1"
proof -
  have h: "(128::nat) \<le> 255" "position (setup_globals 128 0) = 0"
    "length (capture (setup_globals 128 0)) = 128"
    by (simp_all add: setup_globals_def)
  have g: "(128::nat) \<le> length (replicate 130 (3::i16, 4::i16, 5::i16))" "(0::nat) < 128"
    by simp_all
  have m: "map sample_of (take 128 (replicate 130 (3::i16, 4::i16, 5::i16))) =
           replicate 128 (sample_of (3, 4, 5))"
    by simp
  note t = capture_buffer_protocol [OF h, of "replicate 130 (3, 4, 5)" "(6, 7, 8)" "take 64" "env_at 2000 2 True"]
  from t g have "unat (position (ticks 128 (setup_globals 128 0) (replicate 130 (3, 4, 5)))) = 128"
    by simp
  moreover from t g have "ISR 128 (6, 7, 8) (ticks 128 (setup_globals 128 0) (replicate 130 (3, 4, 5))) =
     ticks 128 (setup_globals 128 0) (replicate 130 (3, 4, 5))" by blast
  moreover from t g have "capture (ticks 128 (setup_globals 128 0) (replicate 130 (3, 4, 5))) =
     replicate 128 (sample_of (3, 4, 5))" unfolding m by blast
  moreover from t g have "spectrum (fst (loop 128 (take 64) (env_at 2000 2 True) (ticks 128 (setup_globals 128 0) (replicate 130 (3, 4, 5))))) =
     replicate 64 (sample_of (3, 4, 5))" unfolding m by simp
  moreover from t g have "position (fst (loop 128 (take 64) (env_at 2000 2 True) (ticks 128 (setup_globals 128 0) (replicate 130 (3, 4, 5))))) = 0"
    by blast
  moreover from t g have "position (ISR 128 (6, 7, 8)
     (fst (loop 128 (take 64) (env_at 2000 2 True) (ticks 128 (setup_globals 128 0) (replicate 130 (3, 4, 5)))))) = 1"
    by blast
  ultimately show ?thesis using h g by blast
qed

section \<open>The sample of one tick\<close>

lemma adc_sum:
  fixes x y z :: i16
  assumes "x \<le> 1023" "y \<le> 1023" "z \<le> 1023"
  shows "sint (x + y + z) = uint x + uint y + uint z"
proof -
  have b: "uint x \<le> 1023" "uint y \<le> 1023" "uint z \<le> 1023"
    using assms by (simp_all add: word_le_def)
  have lo: "0 \<le> uint x + uint y + uint z"
    using uint_ge_0 [of x] uint_ge_0 [of y] uint_ge_0 [of z] by linarith
  have hi: "uint x + uint y + uint z \<le> 3069" using b by linarith
  have "uint (x + y + z) = (uint x + uint y + uint z) mod 2 ^ 16"
    by (simp add: uint_word_ariths mod_simps)
  with lo hi have u: "uint (x + y + z) = uint x + uint y + uint z" by simp
  have "sint (x + y + z) = signed_take_bit 15 (uint (x + y + z))"
    by (simp add: sint_uint)
  also have "\<dots> = uint (x + y + z)"
  proof -
    have "- 32768 \<le> uint x + uint y + uint z" "uint x + uint y + uint z < 32768"
      using lo hi by linarith+
    then show ?thesis
      unfolding u by (intro signed_take_bit_int_eq_self) simp_all
  qed
  finally show ?thesis using u by simp
qed

lemma sample_adc:
  fixes x y z :: i16
  assumes "x \<le> 1023" "y \<le> 1023" "z \<le> 1023"
  shows "sint (sample x y z) = (uint x + uint y + uint z) div 3"
proof -
  have b: "uint x \<le> 1023" "uint y \<le> 1023" "uint z \<le> 1023"
    using assms by (simp_all add: word_le_def)
  let ?t = "uint x + uint y + uint z"
  have lo: "0 \<le> ?t"
    using uint_ge_0 [of x] uint_ge_0 [of y] uint_ge_0 [of z] by linarith
  have hi: "?t \<le> 3069" using b by linarith
  have q: "?t sdiv 3 = ?t div 3"
    using lo by (simp add: signed_divide_int_def sgn_if)
  have r: "0 \<le> ?t div 3" "?t div 3 \<le> 1023" using lo hi by linarith+
  have "sint (sample x y z) = signed_take_bit 15 (?t div 3)"
    by (simp add: sample_def adc_sum [OF assms] q sint_sbintrunc')
  also have "\<dots> = ?t div 3"
    using r by (intro signed_take_bit_int_eq_self) simp_all
  finally show ?thesis .
qed

lemma capture_ticks_below:
  assumes "N \<le> 255" "unat (position s) \<le> N" "length (capture s) = N" "i < unat (position s)"
  shows "capture (ticks N s rs) ! i = capture s ! i"
  using assms by (simp add: ticks_fill [OF assms(1-3)] nth_append)

text \<open>
  Claim C8, as amended. \<^verbatim>\<open>analogRead\<close> returns a value from 0 to 1023. On a tick
  that finds the buffer not full, the sample stored at the cursor is the arithmetic
  mean of the three readings rounded down to a whole number; the tick changes no
  other entry of the buffer, and no later tick changes the entry it wrote.
\<close>

theorem sample_truncated_mean:
  assumes "x \<le> 1023" "y \<le> 1023" "z \<le> 1023"
    and "N \<le> 255" "unat (position s) < N" "length (capture s) = N"
  shows "sint (capture (ISR N (x, y, z) s) ! unat (position s)) =
           \<lfloor>(real_of_int (uint x) + real_of_int (uint y) + real_of_int (uint z)) / 3\<rfloor> \<and>
         (\<forall>i<N. i \<noteq> unat (position s) \<longrightarrow> capture (ISR N (x, y, z) s) ! i = capture s ! i) \<and>
         (\<forall>rs. capture (ticks N (ISR N (x, y, z) s) rs) ! unat (position s) =
                 capture (ISR N (x, y, z) s) ! unat (position s))"
proof -
  let ?p = "unat (position s)"
  let ?s' = "ISR N (x, y, z) s"
  have s': "?s' = s\<lparr>capture := (capture s)[?p := sample x y z], position := position s + 1\<rparr>"
    using assms(5) by (simp add: ISR_write sample_of_def)
  have stored: "capture ?s' ! ?p = sample x y z"
    using assms(5,6) by (simp add: s')
  have "real_of_int (uint x) + real_of_int (uint y) + real_of_int (uint z) =
        real_of_int (uint x + uint y + uint z)" by simp
  then have fl: "\<lfloor>(real_of_int (uint x) + real_of_int (uint y) + real_of_int (uint z)) / 3\<rfloor> =
        (uint x + uint y + uint z) div 3"
    using floor_divide_of_int_eq [of "uint x + uint y + uint z" 3, where ?'a = real]
    by (simp only: of_int_numeral)
  have mean: "sint (capture ?s' ! ?p) =
      \<lfloor>(real_of_int (uint x) + real_of_int (uint y) + real_of_int (uint z)) / 3\<rfloor>"
    by (simp only: stored fl sample_adc [OF assms(1-3)])
  have others: "\<forall>i<N. i \<noteq> ?p \<longrightarrow> capture ?s' ! i = capture s ! i"
    by (simp add: s')
  have p': "unat (position ?s') = Suc ?p"
    using assms(4,5) by (simp add: s' unat_succ_byte)
  have later: "\<forall>rs. capture (ticks N ?s' rs) ! ?p = capture ?s' ! ?p"
  proof
    fix rs
    show "capture (ticks N ?s' rs) ! ?p = capture ?s' ! ?p"
    proof (rule capture_ticks_below [OF assms(4)])
      show "unat (position ?s') \<le> N" using assms(5) p' by simp
      show "length (capture ?s') = N" using assms(6) by (simp add: s')
      show "?p < unat (position ?s')" using p' by simp
    qed
  qed
  show ?thesis using mean others later by blast
qed

theorem sample_truncated_mean_witness:
  "(1::i16) \<le> 1023 \<and> (0::i16) \<le> 1023 \<and> (128::nat) \<le> 255 \<and>
   unat (position (setup_globals 128 0)) < 128 \<and>
   length (capture (setup_globals 128 0)) = 128 \<and>
   sint (capture (ISR 128 (1, 0, 0) (setup_globals 128 0)) ! 0) = 0 \<and>
   capture (ISR 128 (1, 0, 0) (setup_globals 128 0)) ! 5 = capture (setup_globals 128 0) ! 5 \<and>
   capture (ticks 128 (ISR 128 (1, 0, 0) (setup_globals 128 0)) [(7, 8, 9)]) ! 0 =
     capture (ISR 128 (1, 0, 0) (setup_globals 128 0)) ! 0"
proof -
  have h: "(1::i16) \<le> 1023" "(0::i16) \<le> 1023" "(128::nat) \<le> 255"
    "unat (position (setup_globals 128 0)) < 128"
    "length (capture (setup_globals 128 0)) = 128"
    by (simp_all add: setup_globals_def)
  have p: "unat (position (setup_globals 128 0)) = 0" by (simp add: setup_globals_def)
  note t = sample_truncated_mean [OF h(1) h(2) h(2) h(3) h(4) h(5), unfolded p]
  have "(5::nat) < 128 \<and> (5::nat) \<noteq> 0" by simp
  with t have "capture (ISR 128 (1, 0, 0) (setup_globals 128 0)) ! 5 = capture (setup_globals 128 0) ! 5"
    by blast
  moreover from t have "sint (capture (ISR 128 (1, 0, 0) (setup_globals 128 0)) ! 0) = 0"
    by simp
  moreover from t have "capture (ticks 128 (ISR 128 (1, 0, 0) (setup_globals 128 0)) [(7, 8, 9)]) ! 0 =
     capture (ISR 128 (1, 0, 0) (setup_globals 128 0)) ! 0" by blast
  ultimately show ?thesis using h by blast
qed

text \<open>
  Claim C8 as stated, that the stored sample equals the arithmetic mean, fails on
  the first tick after \<^verbatim>\<open>setup()\<close> with the readings 1, 0 and 0: the mean is one
  third and the stored sample is 0.
\<close>

theorem sample_mean_counterexample:
  "real_of_int (sint (capture (ISR 128 (1, 0, 0) (setup_globals 128 0)) ! 0)) \<noteq>
   (real_of_int (sint (1::i16)) + real_of_int (sint (0::i16)) + real_of_int (sint (0::i16))) / 3"
  by (simp add: ISR_def setup_globals_def sample_def signed_divide_int_def)

section \<open>The monitored band\<close>

lemma scan_max:
  fixes f :: "nat \<Rightarrow> 'a::linorder"
  shows "foldl (\<lambda>m i. if m < f i then f i else m) a xs = Max (insert a (f ` set xs))"
proof (induction xs arbitrary: a)
  case Nil
  show ?case by simp
next
  case (Cons x xs)
  have "Max (insert (if a < f x then f x else a) (f ` set xs)) =
        Max (insert a (insert (f x) (f ` set xs)))"
  proof (cases "f ` set xs = {}")
    case True
    then show ?thesis by (auto simp: max_def)
  next
    case False
    then show ?thesis by (auto simp: max_def not_less)
  qed
  then show ?case by (simp add: Cons.IH)
qed

lemma maxChan_of_Max:
  "maxChan_of sp = Max ((!) sp ` {mon_freq_ch_min..mon_freq_ch_max})"
proof -
  have "mon_freq_ch_min \<in> {mon_freq_ch_min..mon_freq_ch_max}"
    by (simp add: mon_freq_ch_min_def mon_freq_ch_max_def)
  then have "insert (sp ! mon_freq_ch_min) ((!) sp ` {mon_freq_ch_min..mon_freq_ch_max}) =
        (!) sp ` {mon_freq_ch_min..mon_freq_ch_max}"
    by (intro insert_absorb imageI)
  then have "insert (sp ! mon_freq_ch_min) ((!) sp ` set [mon_freq_ch_min ..< Suc mon_freq_ch_max]) =
        (!) sp ` {mon_freq_ch_min..mon_freq_ch_max}"
    by (simp only: set_upt atLeastLessThanSuc_atLeastAtMost)
  then show ?thesis
    unfolding maxChan_of_def scan_max by simp
qed

lemma uint_Max:
  fixes A :: "u16 set"
  assumes "finite A" "A \<noteq> {}"
  shows "uint (Max A) = Max (uint ` A)"
  by (rule mono_Max_commute [OF _ assms]) (simp add: mono_def word_le_def)

lemma sint_small:
  fixes b :: u16
  assumes "b < 2 ^ 15"
  shows "sint b = uint b"
proof -
  have "uint b < 2 ^ 15" using assms by (simp add: word_less_def)
  moreover have "- (2 ^ 15) \<le> uint b"
  proof -
    have "(- (2 ^ 15) :: int) \<le> 0" by simp
    also have "0 \<le> uint b" by simp
    finally show ?thesis .
  qed
  ultimately have "signed_take_bit 15 (uint b) = uint b"
    by (rule signed_take_bit_int_eq_self [rotated])
  then show ?thesis by (simp add: sint_uint)
qed

text \<open>
  Claim C6. In every pass that processes a window, the value \<^verbatim>\<open>maxChan\<close> handed to
  the alarm logic is the maximum of the spectrum over the bins \<open>mon_freq_ch_min\<close> to
  \<open>mon_freq_ch_max\<close>, both ends included: as 16-bit words in the unsigned order, as
  unsigned numbers, and, when that maximum is below \<open>2 ^ 15\<close>, as the signed number
  that line 264 compares with the threshold.
\<close>

theorem band_energy_is_band_maximum:
  assumes "mon_freq_ch_max < length (fft (capture s))"
  shows "maxChan_of (fft (capture s)) =
           Max ((!) (fft (capture s)) ` {mon_freq_ch_min..mon_freq_ch_max}) \<and>
         uint (maxChan_of (fft (capture s))) =
           Max ((\<lambda>i. uint (fft (capture s) ! i)) ` {mon_freq_ch_min..mon_freq_ch_max}) \<and>
         (\<forall>i\<in>{mon_freq_ch_min..mon_freq_ch_max}. fft (capture s) ! i \<le> maxChan_of (fft (capture s))) \<and>
         mon_freq_ch_min \<in> {mon_freq_ch_min..mon_freq_ch_max} \<and>
         mon_freq_ch_max \<in> {mon_freq_ch_min..mon_freq_ch_max} \<and>
         (maxChan_of (fft (capture s)) < 2 ^ 15 \<longrightarrow>
            sint (maxChan_of (fft (capture s))) = uint (maxChan_of (fft (capture s)))) \<and>
         loop_front fft e s =
           (fst (alarm_logic (Max ((!) (fft (capture s)) ` {mon_freq_ch_min..mon_freq_ch_max})) e
                  (s\<lparr>spectrum := fft (capture s), position := 0\<rparr>)),
            out_app (say [SpectrumDump (fft (capture s))])
              (snd (alarm_logic (Max ((!) (fft (capture s)) ` {mon_freq_ch_min..mon_freq_ch_max})) e
                  (s\<lparr>spectrum := fft (capture s), position := 0\<rparr>))))"
proof -
  let ?sp = "fft (capture s)"
  let ?B = "{mon_freq_ch_min..mon_freq_ch_max}"
  have ne: "finite ((!) ?sp ` ?B)" "(!) ?sp ` ?B \<noteq> {}"
    by (simp_all add: mon_freq_ch_min_def mon_freq_ch_max_def)
  have m: "maxChan_of ?sp = Max ((!) ?sp ` ?B)" by (rule maxChan_of_Max)
  have u: "uint (maxChan_of ?sp) = Max ((\<lambda>i. uint (?sp ! i)) ` ?B)"
    by (simp add: m uint_Max [OF ne] image_image)
  have ub: "\<forall>i\<in>?B. ?sp ! i \<le> maxChan_of ?sp"
    using ne by (simp add: m)
  have ends: "mon_freq_ch_min \<in> ?B" "mon_freq_ch_max \<in> ?B"
    by (simp_all add: mon_freq_ch_min_def mon_freq_ch_max_def)
  have sg: "maxChan_of ?sp < 2 ^ 15 \<longrightarrow> sint (maxChan_of ?sp) = uint (maxChan_of ?sp)"
    using sint_small by blast
  have lf: "loop_front fft e s =
           (fst (alarm_logic (Max ((!) ?sp ` ?B)) e (s\<lparr>spectrum := ?sp, position := 0\<rparr>)),
            out_app (say [SpectrumDump ?sp])
              (snd (alarm_logic (Max ((!) ?sp ` ?B)) e (s\<lparr>spectrum := ?sp, position := 0\<rparr>))))"
    by (simp add: loop_front_def Let_def case_prod_beta m)
  show ?thesis using m u ub ends sg lf by blast
qed

section \<open>One window\<close>

lemma ticks_window:
  assumes "N \<le> 255" "armed N s" "N \<le> length rs"
  shows "ticks N s rs = s\<lparr>capture := map sample_of (take N rs), position := of_nat N\<rparr>"
  using ticks_from_empty [of N s rs] assms by (simp add: armed_def)

lemma pass_window:
  assumes "N \<le> 255" "armed N s" "N \<le> length (fst w)"
  shows "pass N fft s w =
         (fst (loop_back N (snd w)
            (fst (alarm_logic (band_energy N fft w) (snd w)
               (s\<lparr>capture := map sample_of (take N (fst w)),
                   spectrum := fft (map sample_of (take N (fst w))), position := 0\<rparr>)))),
          out_app
            (out_app (say [SpectrumDump (fft (map sample_of (take N (fst w))))])
               (snd (alarm_logic (band_energy N fft w) (snd w)
                 (s\<lparr>capture := map sample_of (take N (fst w)),
                     spectrum := fft (map sample_of (take N (fst w))), position := 0\<rparr>))))
            (snd (loop_back N (snd w)
              (fst (alarm_logic (band_energy N fft w) (snd w)
                 (s\<lparr>capture := map sample_of (take N (fst w)),
                     spectrum := fft (map sample_of (take N (fst w))), position := 0\<rparr>))))))"
proof -
  have "unat (of_nat N :: u8) = N" using assms(1) by (rule unat_of_nat_byte)
  then show ?thesis
    by (simp add: pass_def ticks_window [OF assms] loop_def loop_preempted_def loop_front_def
        band_energy_def ticks_Nil Let_def case_prod_beta)
qed

lemma pass_armed:
  assumes "N \<le> 255" "armed N s" "N \<le> length (fst w)"
  shows "armed N (fst (pass N fft s w))"
  using assms(2,3)
  by (simp add: pass_window [OF assms] armed_def loop_back_buffer alarm_logic_buffer)

lemma pass_exceeded:
  assumes "N \<le> 255" "armed N s" "N \<le> length (fst w)"
  shows "mon_thresh_exceeded (fst (pass N fft s w)) = (mon_thresh \<le>s band_energy N fft w)"
  by (simp add: pass_window [OF assms] loop_back_def log_logic_def alarm_logic_def Let_def
      case_prod_beta)

lemma pass_since:
  assumes "N \<le> 255" "armed N s" "N \<le> length (fst w)"
  shows "mon_thresh_millis (fst (pass N fft s w)) =
         (if mon_thresh \<le>s band_energy N fft w \<and> \<not> mon_thresh_exceeded s
          then millis_268 (snd w) else mon_thresh_millis s)"
  by (simp add: pass_window [OF assms] loop_back_def log_logic_def alarm_logic_def Let_def
      case_prod_beta)

lemma pass_lastreset:
  assumes "N \<le> 255" "armed N s" "N \<le> length (fst w)"
  shows "mon_lastreset_millis (fst (pass N fft s w)) =
         (if \<not> mon_thresh \<le>s band_energy N fft w \<and> mon_thresh_exceeded s
          then now_283 (snd w) else mon_lastreset_millis s)"
  by (simp add: pass_window [OF assms] loop_back_def log_logic_def alarm_logic_def Let_def
      case_prod_beta)

lemma pass_alarm:
  assumes "N \<le> 255" "armed N s" "N \<le> length (fst w)"
  shows "mon_alarm_state (fst (pass N fft s w)) =
         (if mon_thresh \<le>s band_energy N fft w
          then mon_alarm_millis \<le> millis_270 (snd w) -
                 (if mon_thresh_exceeded s then mon_thresh_millis s else millis_268 (snd w)) \<or>
               mon_alarm_state s
          else mon_alarm_state s \<and>
               (mon_thresh_exceeded s \<or>
                \<not> mon_reset_millis < millis_289 (snd w) - mon_lastreset_millis s))"
  by (simp add: pass_window [OF assms] loop_back_def log_logic_def alarm_logic_def Let_def
      case_prod_beta)

lemma pass_warn:
  assumes "N \<le> 255" "armed N s" "N \<le> length (fst w)"
  shows "mon_warn_state (fst (pass N fft s w)) =
         (if mon_thresh \<le>s band_energy N fft w
          then \<not> mon_alarm_millis \<le> millis_270 (snd w) -
                 (if mon_thresh_exceeded s then mon_thresh_millis s else millis_268 (snd w)) \<and>
               (mon_warn_millis \<le> millis_274 (snd w) -
                 (if mon_thresh_exceeded s then mon_thresh_millis s else millis_268 (snd w)) \<or>
                mon_warn_state s)
          else mon_warn_state s \<and>
               (mon_thresh_exceeded s \<or>
                \<not> mon_reset_millis < millis_289 (snd w) - mon_lastreset_millis s))"
  by (simp add: pass_window [OF assms] loop_back_def log_logic_def alarm_logic_def Let_def
      case_prod_beta)

lemma pass_buzzer:
  assumes "N \<le> 255" "armed N s" "N \<le> length (fst w)"
  shows "buzzer (snd (pass N fft s w)) =
         (if \<not> mon_thresh \<le>s band_energy N fft w \<and> \<not> mon_thresh_exceeded s \<and>
             mon_reset_millis < millis_289 (snd w) - mon_lastreset_millis s
          then [NoTone] else []) @
         (if mon_warn_state (fst (pass N fft s w)) then [Tone 200 (Some 100)] else []) @
         (if mon_alarm_state (fst (pass N fft s w)) then [Tone 100 None] else [])"
  by (simp add: pass_window [OF assms] loop_back_def log_logic_def alarm_logic_def Let_def
      case_prod_beta out_app_def say_def alert_logic_def)

lemma pass_serial:
  assumes "N \<le> 255" "armed N s" "N \<le> length (fst w)"
  shows "serial (snd (pass N fft s w)) =
         SpectrumDump (fft (map sample_of (take N (fst w)))) #
         (if mon_thresh \<le>s band_energy N fft w
          then (if mon_thresh_exceeded s then [] else [NewEvent]) @
               [if mon_alarm_millis \<le> millis_270 (snd w) -
                    (if mon_thresh_exceeded s then mon_thresh_millis s else millis_268 (snd w))
                then AlarmMsg
                else if mon_warn_millis \<le> millis_274 (snd w) -
                    (if mon_thresh_exceeded s then mon_thresh_millis s else millis_268 (snd w))
                then WarningMsg else PreAlarmMsg]
          else if mon_thresh_exceeded s then [EventReset] else []) @
         (if mon_thresh \<le>s band_energy N fft w \<or>
             last_log_millis s + log_millis < millis_297 (snd w)
          then WritingLog #
                 (if open_ok (snd w) then [] else error_P ''create'' (errorCode_102 (snd w)))
          else [])"
  by (simp add: pass_window [OF assms] loop_back_def log_logic_def alarm_logic_def Let_def
      case_prod_beta out_app_def say_def alert_logic_def)

lemma pass_last_log:
  assumes "N \<le> 255" "armed N s" "N \<le> length (fst w)"
  shows "last_log_millis (fst (pass N fft s w)) =
         (if mon_thresh \<le>s band_energy N fft w \<or>
             last_log_millis s + log_millis < millis_297 (snd w)
          then millis_322 (snd w) else last_log_millis s)"
  by (simp add: pass_window [OF assms] loop_back_def log_logic_def alarm_logic_def Let_def
      case_prod_beta)

section \<open>Escalation\<close>

lemma elapsed_readings_Cons:
  "elapsed_readings t0 (w # ws) =
     (millis_270 (snd w) - t0) # (millis_274 (snd w) - t0) # elapsed_readings t0 ws"
  by (simp add: elapsed_readings_def)

lemma durations_ordered: "mon_warn_millis \<le> mon_alarm_millis"
  by (simp add: mon_warn_millis_def mon_alarm_millis_def)

lemma escalation_run:
  assumes cfg: "N \<le> 255"
  shows "armed N s \<Longrightarrow> mon_thresh_exceeded s \<Longrightarrow> mon_thresh_millis s = t0 \<Longrightarrow>
    (mon_alarm_state s \<longrightarrow> \<not> mon_warn_state s \<and> mon_alarm_millis \<le> b) \<Longrightarrow>
    (mon_warn_state s \<longrightarrow> mon_warn_millis \<le> b) \<Longrightarrow>
    sorted (b # elapsed_readings t0 ws) \<Longrightarrow>
    \<forall>w\<in>set ws. N \<le> length (fst w) \<Longrightarrow>
    \<forall>w\<in>set ws. mon_thresh \<le>s band_energy N fft w \<Longrightarrow>
    k < length ws \<Longrightarrow>
    mon_thresh_exceeded (fst (passes N fft s ws ! k)) \<and>
    mon_thresh_millis (fst (passes N fft s ws ! k)) = t0 \<and>
    mon_alarm_state (fst (passes N fft s ws ! k)) =
      (mon_alarm_millis \<le> millis_270 (snd (ws ! k)) - t0) \<and>
    mon_warn_state (fst (passes N fft s ws ! k)) =
      (\<not> mon_alarm_millis \<le> millis_270 (snd (ws ! k)) - t0 \<and>
       mon_warn_millis \<le> millis_274 (snd (ws ! k)) - t0) \<and>
    (if mon_alarm_millis \<le> millis_270 (snd (ws ! k)) - t0 then AlarmMsg
     else if mon_warn_millis \<le> millis_274 (snd (ws ! k)) - t0 then WarningMsg
     else PreAlarmMsg) \<in> set (serial (snd (passes N fft s ws ! k)))"
proof (induction ws arbitrary: s b k)
  case Nil
  then show ?case by simp
next
  case (Cons w ws)
  let ?ea = "millis_270 (snd w) - t0"
  let ?ew = "millis_274 (snd w) - t0"
  let ?s' = "fst (pass N fft s w)"
  have len: "N \<le> length (fst w)" using Cons.prems(7) by simp
  have hot: "mon_thresh \<le>s band_energy N fft w" using Cons.prems(8) by simp
  note fl = pass_exceeded [OF cfg Cons.prems(1) len, of fft]
    pass_since [OF cfg Cons.prems(1) len, of fft]
    pass_alarm [OF cfg Cons.prems(1) len, of fft]
    pass_warn [OF cfg Cons.prems(1) len, of fft]
  have srt: "b \<le> ?ea" "?ea \<le> ?ew" "sorted (?ew # elapsed_readings t0 ws)"
    using Cons.prems(6) by (simp_all add: elapsed_readings_Cons)
  have ex': "mon_thresh_exceeded ?s'" using hot by (simp add: fl)
  have since': "mon_thresh_millis ?s' = t0"
    using Cons.prems(2,3) by (simp add: fl)
  have no_alarm: "\<not> mon_alarm_millis \<le> ?ea \<Longrightarrow> \<not> mon_alarm_state s"
    using Cons.prems(4) srt(1) by auto
  have al': "mon_alarm_state ?s' = (mon_alarm_millis \<le> ?ea)"
    using hot Cons.prems(2,3) no_alarm by (auto simp add: fl)
  have no_warn: "\<not> mon_warn_millis \<le> ?ew \<Longrightarrow> \<not> mon_warn_state s"
    using Cons.prems(5) srt(1,2) by auto
  have wa': "mon_warn_state ?s' = (\<not> mon_alarm_millis \<le> ?ea \<and> mon_warn_millis \<le> ?ew)"
    using hot Cons.prems(2,3) no_warn by (auto simp add: fl)
  have msg: "(if mon_alarm_millis \<le> ?ea then AlarmMsg
     else if mon_warn_millis \<le> ?ew then WarningMsg
     else PreAlarmMsg) \<in> set (serial (snd (pass N fft s w)))"
    using hot Cons.prems(2,3) by (simp add: pass_serial [OF cfg Cons.prems(1) len, of fft])
  show ?case
  proof (cases k)
    case 0
    then show ?thesis using ex' since' al' wa' msg by (auto split: if_splits)
  next
    case (Suc j)
    have j: "j < length ws" using Cons.prems(9) Suc by simp
    have a1: "mon_alarm_state ?s' \<longrightarrow> \<not> mon_warn_state ?s' \<and> mon_alarm_millis \<le> ?ew"
      using al' wa' srt(2) by auto
    have a2: "mon_warn_state ?s' \<longrightarrow> mon_warn_millis \<le> ?ew"
      using wa' by simp
    have r1: "\<forall>w\<in>set ws. N \<le> length (fst w)" using Cons.prems(7) by simp
    have r2: "\<forall>w\<in>set ws. mon_thresh \<le>s band_energy N fft w" using Cons.prems(8) by simp
    note ih = Cons.IH [OF pass_armed [OF cfg Cons.prems(1) len] ex' since' a1 a2 srt(3) r1 r2 j]
    then show ?thesis unfolding Suc by (simp only: passes.simps nth_Cons_Suc)
  qed
qed

text \<open>
  Claim C1. Start with no flag set and let every window from \<open>w0\<close> on have its
  \<^verbatim>\<open>maxChan\<close> at or above \<open>mon_thresh\<close>. The durations are those the program
  computes, \<^verbatim>\<open>millis()\<close> minus the reading taken at line 268 of the first window;
  they do not decrease along the run, and the clock advances by less than the
  warning duration between lines 268 and 274 of the first window. Then after every
  window the event is on and dated from the first window; a window whose duration
  is at least \<open>mon_alarm_millis\<close> leaves the alarm flag alone set and prints the alarm
  line; one whose duration is below that and at least \<open>mon_warn_millis\<close> leaves the
  warning flag alone set and prints the warning line; one below both leaves neither
  set and prints the pre-alarm line. The first window is of the last kind.
\<close>

theorem escalation_timing:
  assumes cfg: "N \<le> 255" and arm: "armed N s"
    and idle: "\<not> mon_thresh_exceeded s" "\<not> mon_warn_state s" "\<not> mon_alarm_state s"
    and full: "\<forall>w\<in>set (w0 # ws). N \<le> length (fst w)"
    and hot: "\<forall>w\<in>set (w0 # ws). mon_thresh \<le>s band_energy N fft w"
    and clock: "sorted (elapsed_readings (millis_268 (snd w0)) (w0 # ws))"
    and first: "millis_274 (snd w0) - millis_268 (snd w0) < mon_warn_millis"
  shows "(\<forall>k<length (w0 # ws).
           mon_thresh_exceeded (fst (passes N fft s (w0 # ws) ! k)) \<and>
           mon_thresh_millis (fst (passes N fft s (w0 # ws) ! k)) = millis_268 (snd w0) \<and>
           (mon_alarm_millis \<le> millis_270 (snd ((w0 # ws) ! k)) - millis_268 (snd w0) \<longrightarrow>
              mon_alarm_state (fst (passes N fft s (w0 # ws) ! k)) \<and>
              \<not> mon_warn_state (fst (passes N fft s (w0 # ws) ! k)) \<and>
              AlarmMsg \<in> set (serial (snd (passes N fft s (w0 # ws) ! k)))) \<and>
           (millis_270 (snd ((w0 # ws) ! k)) - millis_268 (snd w0) < mon_alarm_millis \<and>
            mon_warn_millis \<le> millis_274 (snd ((w0 # ws) ! k)) - millis_268 (snd w0) \<longrightarrow>
              mon_warn_state (fst (passes N fft s (w0 # ws) ! k)) \<and>
              \<not> mon_alarm_state (fst (passes N fft s (w0 # ws) ! k)) \<and>
              WarningMsg \<in> set (serial (snd (passes N fft s (w0 # ws) ! k)))) \<and>
           (millis_270 (snd ((w0 # ws) ! k)) - millis_268 (snd w0) < mon_alarm_millis \<and>
            millis_274 (snd ((w0 # ws) ! k)) - millis_268 (snd w0) < mon_warn_millis \<longrightarrow>
              \<not> mon_warn_state (fst (passes N fft s (w0 # ws) ! k)) \<and>
              \<not> mon_alarm_state (fst (passes N fft s (w0 # ws) ! k)) \<and>
              PreAlarmMsg \<in> set (serial (snd (passes N fft s (w0 # ws) ! k))))) \<and>
         \<not> mon_warn_state (fst (passes N fft s (w0 # ws) ! 0)) \<and>
         \<not> mon_alarm_state (fst (passes N fft s (w0 # ws) ! 0)) \<and>
         tag_of (fst (passes N fft s (w0 # ws) ! 0)) = TagPoss \<and>
         NewEvent \<in> set (serial (snd (passes N fft s (w0 # ws) ! 0))) \<and>
         PreAlarmMsg \<in> set (serial (snd (passes N fft s (w0 # ws) ! 0)))"
proof -
  let ?t0 = "millis_268 (snd w0)"
  let ?ea = "millis_270 (snd w0) - ?t0"
  let ?ew = "millis_274 (snd w0) - ?t0"
  let ?s1 = "fst (pass N fft s w0)"
  have len: "N \<le> length (fst w0)" using full by simp
  have hot0: "mon_thresh \<le>s band_energy N fft w0" using hot by simp
  note fl = pass_exceeded [OF cfg arm len, of fft] pass_since [OF cfg arm len, of fft]
    pass_alarm [OF cfg arm len, of fft] pass_warn [OF cfg arm len, of fft]
  have srt: "?ea \<le> ?ew" "sorted (?ew # elapsed_readings ?t0 ws)"
    using clock by (simp_all add: elapsed_readings_Cons)
  have ex1: "mon_thresh_exceeded ?s1" using hot0 by (simp add: fl)
  have since1: "mon_thresh_millis ?s1 = ?t0" using hot0 idle by (simp add: fl)
  have al1: "mon_alarm_state ?s1 = (mon_alarm_millis \<le> ?ea)"
    using hot0 idle by (simp add: fl)
  have wa1: "mon_warn_state ?s1 = (\<not> mon_alarm_millis \<le> ?ea \<and> mon_warn_millis \<le> ?ew)"
    using hot0 idle by (simp add: fl)
  have ser1: "serial (snd (pass N fft s w0)) =
      SpectrumDump (fft (map sample_of (take N (fst w0)))) # NewEvent #
      (if mon_alarm_millis \<le> ?ea then AlarmMsg
       else if mon_warn_millis \<le> ?ew then WarningMsg else PreAlarmMsg) #
      WritingLog #
        (if open_ok (snd w0) then [] else error_P ''create'' (errorCode_102 (snd w0)))"
    using hot0 idle by (simp add: pass_serial [OF cfg arm len, of fft])
  have q_w: "\<not> mon_warn_millis \<le> ?ew" using first by simp
  have q_a: "\<not> mon_alarm_millis \<le> ?ea"
    using first srt(1) durations_ordered by auto
  have a1: "mon_alarm_state ?s1 \<longrightarrow> \<not> mon_warn_state ?s1 \<and> mon_alarm_millis \<le> ?ew"
    using al1 q_a by simp
  have a2: "mon_warn_state ?s1 \<longrightarrow> mon_warn_millis \<le> ?ew"
    using wa1 by simp
  have r1: "\<forall>w\<in>set ws. N \<le> length (fst w)" using full by simp
  have r2: "\<forall>w\<in>set ws. mon_thresh \<le>s band_energy N fft w" using hot by simp
  note run = escalation_run [OF cfg pass_armed [OF cfg arm len] ex1 since1 a1 a2 srt(2) r1 r2]
  have first_window: "\<not> mon_warn_state ?s1 \<and> \<not> mon_alarm_state ?s1 \<and> tag_of ?s1 = TagPoss \<and>
      NewEvent \<in> set (serial (snd (pass N fft s w0))) \<and>
      PreAlarmMsg \<in> set (serial (snd (pass N fft s w0)))"
    using al1 wa1 q_a q_w ex1 by (simp add: ser1 tag_of_def)
  have every: "\<forall>k<length (w0 # ws).
           mon_thresh_exceeded (fst (passes N fft s (w0 # ws) ! k)) \<and>
           mon_thresh_millis (fst (passes N fft s (w0 # ws) ! k)) = ?t0 \<and>
           mon_alarm_state (fst (passes N fft s (w0 # ws) ! k)) =
             (mon_alarm_millis \<le> millis_270 (snd ((w0 # ws) ! k)) - ?t0) \<and>
           mon_warn_state (fst (passes N fft s (w0 # ws) ! k)) =
             (\<not> mon_alarm_millis \<le> millis_270 (snd ((w0 # ws) ! k)) - ?t0 \<and>
              mon_warn_millis \<le> millis_274 (snd ((w0 # ws) ! k)) - ?t0) \<and>
           (if mon_alarm_millis \<le> millis_270 (snd ((w0 # ws) ! k)) - ?t0 then AlarmMsg
            else if mon_warn_millis \<le> millis_274 (snd ((w0 # ws) ! k)) - ?t0 then WarningMsg
            else PreAlarmMsg) \<in> set (serial (snd (passes N fft s (w0 # ws) ! k)))"
  proof (intro allI impI)
    fix k assume k: "k < length (w0 # ws)"
    show "mon_thresh_exceeded (fst (passes N fft s (w0 # ws) ! k)) \<and>
           mon_thresh_millis (fst (passes N fft s (w0 # ws) ! k)) = ?t0 \<and>
           mon_alarm_state (fst (passes N fft s (w0 # ws) ! k)) =
             (mon_alarm_millis \<le> millis_270 (snd ((w0 # ws) ! k)) - ?t0) \<and>
           mon_warn_state (fst (passes N fft s (w0 # ws) ! k)) =
             (\<not> mon_alarm_millis \<le> millis_270 (snd ((w0 # ws) ! k)) - ?t0 \<and>
              mon_warn_millis \<le> millis_274 (snd ((w0 # ws) ! k)) - ?t0) \<and>
           (if mon_alarm_millis \<le> millis_270 (snd ((w0 # ws) ! k)) - ?t0 then AlarmMsg
            else if mon_warn_millis \<le> millis_274 (snd ((w0 # ws) ! k)) - ?t0 then WarningMsg
            else PreAlarmMsg) \<in> set (serial (snd (passes N fft s (w0 # ws) ! k)))"
    proof (cases k)
      case 0
      show ?thesis unfolding 0 using ex1 since1 al1 wa1 by (simp add: ser1)
    next
      case (Suc j)
      then have "j < length ws" using k by simp
      from run [OF this] show ?thesis unfolding Suc by (simp only: passes.simps nth_Cons_Suc)
    qed
  qed
  have each: "\<forall>k<length (w0 # ws).
           mon_thresh_exceeded (fst (passes N fft s (w0 # ws) ! k)) \<and>
           mon_thresh_millis (fst (passes N fft s (w0 # ws) ! k)) = millis_268 (snd w0) \<and>
           (mon_alarm_millis \<le> millis_270 (snd ((w0 # ws) ! k)) - millis_268 (snd w0) \<longrightarrow>
              mon_alarm_state (fst (passes N fft s (w0 # ws) ! k)) \<and>
              \<not> mon_warn_state (fst (passes N fft s (w0 # ws) ! k)) \<and>
              AlarmMsg \<in> set (serial (snd (passes N fft s (w0 # ws) ! k)))) \<and>
           (millis_270 (snd ((w0 # ws) ! k)) - millis_268 (snd w0) < mon_alarm_millis \<and>
            mon_warn_millis \<le> millis_274 (snd ((w0 # ws) ! k)) - millis_268 (snd w0) \<longrightarrow>
              mon_warn_state (fst (passes N fft s (w0 # ws) ! k)) \<and>
              \<not> mon_alarm_state (fst (passes N fft s (w0 # ws) ! k)) \<and>
              WarningMsg \<in> set (serial (snd (passes N fft s (w0 # ws) ! k)))) \<and>
           (millis_270 (snd ((w0 # ws) ! k)) - millis_268 (snd w0) < mon_alarm_millis \<and>
            millis_274 (snd ((w0 # ws) ! k)) - millis_268 (snd w0) < mon_warn_millis \<longrightarrow>
              \<not> mon_warn_state (fst (passes N fft s (w0 # ws) ! k)) \<and>
              \<not> mon_alarm_state (fst (passes N fft s (w0 # ws) ! k)) \<and>
              PreAlarmMsg \<in> set (serial (snd (passes N fft s (w0 # ws) ! k))))"
  proof (intro allI impI)
    fix k assume k: "k < length (w0 # ws)"
    let ?r = "passes N fft s (w0 # ws) ! k"
    let ?a = "millis_270 (snd ((w0 # ws) ! k)) - millis_268 (snd w0)"
    let ?w = "millis_274 (snd ((w0 # ws) ! k)) - millis_268 (snd w0)"
    from every k have e: "mon_thresh_exceeded (fst ?r)"
      "mon_thresh_millis (fst ?r) = millis_268 (snd w0)"
      "mon_alarm_state (fst ?r) = (mon_alarm_millis \<le> ?a)"
      "mon_warn_state (fst ?r) = (\<not> mon_alarm_millis \<le> ?a \<and> mon_warn_millis \<le> ?w)"
      "(if mon_alarm_millis \<le> ?a then AlarmMsg
        else if mon_warn_millis \<le> ?w then WarningMsg else PreAlarmMsg) \<in> set (serial (snd ?r))"
      by blast+
    have c1: "mon_alarm_millis \<le> ?a \<longrightarrow>
              mon_alarm_state (fst ?r) \<and> \<not> mon_warn_state (fst ?r) \<and>
              AlarmMsg \<in> set (serial (snd ?r))"
      using e(3,4,5) by (auto split: if_splits)
    have c2: "?a < mon_alarm_millis \<and> mon_warn_millis \<le> ?w \<longrightarrow>
              mon_warn_state (fst ?r) \<and> \<not> mon_alarm_state (fst ?r) \<and>
              WarningMsg \<in> set (serial (snd ?r))"
      using e(3,4,5) by (auto simp: not_le split: if_splits)
    have c3: "?a < mon_alarm_millis \<and> ?w < mon_warn_millis \<longrightarrow>
              \<not> mon_warn_state (fst ?r) \<and> \<not> mon_alarm_state (fst ?r) \<and>
              PreAlarmMsg \<in> set (serial (snd ?r))"
      using e(3,4,5) by (auto simp: not_le split: if_splits)
    show "mon_thresh_exceeded (fst ?r) \<and>
           mon_thresh_millis (fst ?r) = millis_268 (snd w0) \<and>
           (mon_alarm_millis \<le> ?a \<longrightarrow>
              mon_alarm_state (fst ?r) \<and> \<not> mon_warn_state (fst ?r) \<and>
              AlarmMsg \<in> set (serial (snd ?r))) \<and>
           (?a < mon_alarm_millis \<and> mon_warn_millis \<le> ?w \<longrightarrow>
              mon_warn_state (fst ?r) \<and> \<not> mon_alarm_state (fst ?r) \<and>
              WarningMsg \<in> set (serial (snd ?r))) \<and>
           (?a < mon_alarm_millis \<and> ?w < mon_warn_millis \<longrightarrow>
              \<not> mon_warn_state (fst ?r) \<and> \<not> mon_alarm_state (fst ?r) \<and>
              PreAlarmMsg \<in> set (serial (snd ?r)))"
      using e(1,2) c1 c2 c3 by (intro conjI)
  qed
  have p0: "passes N fft s (w0 # ws) ! 0 = pass N fft s w0" by simp
  show ?thesis
    unfolding p0 using each first_window unfolding p0 by (intro conjI) blast+
qed

section \<open>A quiet run\<close>

text \<open>
  Claim C7. Start with no flag set and let every window have its \<^verbatim>\<open>maxChan\<close> below
  \<open>mon_thresh\<close>, whatever the clock reads. After every window no flag is set, the
  level written to a log record is blank, and the only call made on the buzzer, if
  any, is \<^verbatim>\<open>noTone\<close>.
\<close>

theorem idle_stays_idle:
  assumes cfg: "N \<le> 255" and arm: "armed N s"
    and idle: "\<not> mon_thresh_exceeded s" "\<not> mon_warn_state s" "\<not> mon_alarm_state s"
    and full: "\<forall>w\<in>set ws. N \<le> length (fst w)"
    and quiet: "\<forall>w\<in>set ws. band_energy N fft w <s mon_thresh"
  shows "\<forall>r\<in>set (passes N fft s ws).
           \<not> mon_thresh_exceeded (fst r) \<and> \<not> mon_warn_state (fst r) \<and>
           \<not> mon_alarm_state (fst r) \<and> tag_of (fst r) = TagBlank \<and>
           (\<forall>c\<in>set (buzzer (snd r)). c = NoTone)"
  using arm idle full quiet
proof (induction ws arbitrary: s)
  case Nil
  show ?case by simp
next
  case (Cons w ws)
  let ?s' = "fst (pass N fft s w)"
  have len: "N \<le> length (fst w)" using Cons.prems(5) by simp
  have cold: "\<not> mon_thresh \<le>s band_energy N fft w"
    using Cons.prems(6) by (simp add: signed.not_le)
  have ex': "\<not> mon_thresh_exceeded ?s'"
    using cold by (simp add: pass_exceeded [OF cfg Cons.prems(1) len])
  have wa': "\<not> mon_warn_state ?s'"
    using cold Cons.prems(3) by (simp add: pass_warn [OF cfg Cons.prems(1) len])
  have al': "\<not> mon_alarm_state ?s'"
    using cold Cons.prems(4) by (simp add: pass_alarm [OF cfg Cons.prems(1) len])
  have bz: "\<forall>c\<in>set (buzzer (snd (pass N fft s w))). c = NoTone"
    using wa' al' by (simp add: pass_buzzer [OF cfg Cons.prems(1) len])
  have tg: "tag_of ?s' = TagBlank" using ex' wa' al' by (simp add: tag_of_def)
  have r1: "\<forall>w\<in>set ws. N \<le> length (fst w)" using Cons.prems(5) by simp
  have r2: "\<forall>w\<in>set ws. band_energy N fft w <s mon_thresh" using Cons.prems(6) by simp
  note ih = Cons.IH [OF pass_armed [OF cfg Cons.prems(1) len] ex' wa' al' r1 r2]
  show ?case using ex' wa' al' bz tg ih by simp
qed

section \<open>A dip\<close>

lemma passes_length: "length (passes N fft s ws) = length ws"
  by (induction ws arbitrary: s) simp_all

lemma passes_snoc:
  "bs \<noteq> [] \<Longrightarrow>
   passes N fft s (bs @ [w]) =
     passes N fft s bs @ [pass N fft (fst (last (passes N fft s bs))) w]"
proof (induction bs arbitrary: s)
  case Nil
  then show ?case by simp
next
  case (Cons b bs)
  show ?case
  proof (cases "bs = []")
    case True
    then show ?thesis by simp
  next
    case False
    then have "passes N fft (fst (pass N fft s b)) bs \<noteq> []"
      by (cases bs) simp_all
    then show ?thesis using Cons.IH [OF False] by simp
  qed
qed

lemma passes_armed:
  assumes cfg: "N \<le> 255"
  shows "armed N s \<Longrightarrow> \<forall>w\<in>set ws. N \<le> length (fst w) \<Longrightarrow>
         \<forall>r\<in>set (passes N fft s ws). armed N (fst r)"
proof (induction ws arbitrary: s)
  case Nil
  show ?case by simp
next
  case (Cons w ws)
  have len: "N \<le> length (fst w)" using Cons.prems(2) by simp
  have a: "armed N (fst (pass N fft s w))" by (rule pass_armed [OF cfg Cons.prems(1) len])
  have "\<forall>w\<in>set ws. N \<le> length (fst w)" using Cons.prems(2) by simp
  from Cons.IH [OF a this] a show ?case by simp
qed

lemma passes_cold:
  assumes cfg: "N \<le> 255"
  shows "armed N s \<Longrightarrow> \<forall>w\<in>set ws. N \<le> length (fst w) \<Longrightarrow>
         \<forall>w\<in>set ws. band_energy N fft w <s mon_thresh \<Longrightarrow>
         \<forall>r\<in>set (passes N fft s ws). \<not> mon_thresh_exceeded (fst r)"
proof (induction ws arbitrary: s)
  case Nil
  show ?case by simp
next
  case (Cons w ws)
  have len: "N \<le> length (fst w)" using Cons.prems(2) by simp
  have cold: "\<not> mon_thresh \<le>s band_energy N fft w"
    using Cons.prems(3) by (simp add: signed.not_le)
  have a: "armed N (fst (pass N fft s w))" by (rule pass_armed [OF cfg Cons.prems(1) len])
  have e: "\<not> mon_thresh_exceeded (fst (pass N fft s w))"
    using cold by (simp add: pass_exceeded [OF cfg Cons.prems(1) len])
  have r1: "\<forall>w\<in>set ws. N \<le> length (fst w)" using Cons.prems(2) by simp
  have r2: "\<forall>w\<in>set ws. band_energy N fft w <s mon_thresh" using Cons.prems(3) by simp
  from Cons.IH [OF a r1 r2] e show ?case by simp
qed

text \<open>
  Claim C10. From any state, let a run of one or more windows below the threshold
  be followed by a window at or above it, during whose pass the clock advances by
  less than the warning duration between lines 268 and 274. Every window of the dip
  leaves \<open>mon_thresh_exceeded\<close> cleared. The window that follows starts a new event:
  \<open>mon_thresh_millis\<close> is its own reading of line 268 and the pass prints the new-event
  and pre-alarm lines, not the warning or alarm line. The warning and alarm flags
  come out of that window as they were at the end of the dip, and the first window
  of a dip that ends an event leaves them as they were in the event.
\<close>

theorem dip_restarts_escalation:
  assumes cfg: "N \<le> 255" and arm: "armed N s"
    and dip: "bs \<noteq> []"
    and full: "\<forall>b\<in>set bs. N \<le> length (fst b)" "N \<le> length (fst w)"
    and cold: "\<forall>b\<in>set bs. band_energy N fft b <s mon_thresh"
    and hot: "mon_thresh \<le>s band_energy N fft w"
    and quick: "millis_270 (snd w) - millis_268 (snd w) < mon_alarm_millis"
      "millis_274 (snd w) - millis_268 (snd w) < mon_warn_millis"
  shows "(\<forall>r\<in>set (passes N fft s bs). \<not> mon_thresh_exceeded (fst r)) \<and>
         mon_thresh_exceeded (fst (last (passes N fft s (bs @ [w])))) \<and>
         mon_thresh_millis (fst (last (passes N fft s (bs @ [w])))) = millis_268 (snd w) \<and>
         NewEvent \<in> set (serial (snd (last (passes N fft s (bs @ [w]))))) \<and>
         PreAlarmMsg \<in> set (serial (snd (last (passes N fft s (bs @ [w]))))) \<and>
         WarningMsg \<notin> set (serial (snd (last (passes N fft s (bs @ [w]))))) \<and>
         AlarmMsg \<notin> set (serial (snd (last (passes N fft s (bs @ [w]))))) \<and>
         mon_warn_state (fst (last (passes N fft s (bs @ [w])))) =
           mon_warn_state (fst (last (passes N fft s bs))) \<and>
         mon_alarm_state (fst (last (passes N fft s (bs @ [w])))) =
           mon_alarm_state (fst (last (passes N fft s bs))) \<and>
         (mon_thresh_exceeded s \<longrightarrow>
            mon_warn_state (fst (hd (passes N fft s bs))) = mon_warn_state s \<and>
            mon_alarm_state (fst (hd (passes N fft s bs))) = mon_alarm_state s)"
proof -
  let ?d = "fst (last (passes N fft s bs))"
  let ?r = "pass N fft ?d w"
  have ne: "passes N fft s bs \<noteq> []" using dip by (cases bs) simp_all
  then have mem: "last (passes N fft s bs) \<in> set (passes N fft s bs)" by simp
  have all_cold: "\<forall>r\<in>set (passes N fft s bs). \<not> mon_thresh_exceeded (fst r)"
    by (rule passes_cold [OF cfg arm full(1) cold])
  have d_arm: "armed N ?d" using passes_armed [OF cfg arm full(1), of fft] mem by blast
  have d_cold: "\<not> mon_thresh_exceeded ?d" using all_cold mem by blast
  have lst: "last (passes N fft s (bs @ [w])) = ?r"
    by (simp add: passes_snoc [OF dip])
  have qa: "\<not> mon_alarm_millis \<le> millis_270 (snd w) - millis_268 (snd w)"
    using quick(1) by simp
  have qw: "\<not> mon_warn_millis \<le> millis_274 (snd w) - millis_268 (snd w)"
    using quick(2) by simp
  have e: "mon_thresh_exceeded (fst ?r)"
    using hot by (simp add: pass_exceeded [OF cfg d_arm full(2)])
  have t: "mon_thresh_millis (fst ?r) = millis_268 (snd w)"
    using hot d_cold by (simp add: pass_since [OF cfg d_arm full(2)])
  have ser: "serial (snd ?r) =
      SpectrumDump (fft (map sample_of (take N (fst w)))) # NewEvent # PreAlarmMsg #
      WritingLog #
        (if open_ok (snd w) then [] else error_P ''create'' (errorCode_102 (snd w)))"
    using hot d_cold qa qw by (simp add: pass_serial [OF cfg d_arm full(2)])
  have wa: "mon_warn_state (fst ?r) = mon_warn_state ?d"
    using hot d_cold qa qw by (simp add: pass_warn [OF cfg d_arm full(2)])
  have al: "mon_alarm_state (fst ?r) = mon_alarm_state ?d"
    using hot d_cold qa qw by (simp add: pass_alarm [OF cfg d_arm full(2)])
  have keep: "mon_thresh_exceeded s \<longrightarrow>
            mon_warn_state (fst (hd (passes N fft s bs))) = mon_warn_state s \<and>
            mon_alarm_state (fst (hd (passes N fft s bs))) = mon_alarm_state s"
  proof (cases bs)
    case Nil
    with dip show ?thesis by simp
  next
    case (Cons b bs')
    have len: "N \<le> length (fst b)" using full(1) Cons by simp
    have c: "\<not> mon_thresh \<le>s band_energy N fft b"
      using cold Cons by (simp add: signed.not_le)
    show ?thesis
      using c by (simp add: Cons pass_warn [OF cfg arm len] pass_alarm [OF cfg arm len])
  qed
  show ?thesis
    unfolding lst using all_cold e t wa al keep by (simp add: ser error_P_def)
qed

section \<open>Storage failures\<close>

lemma alarm_logic_storage:
  "alarm_logic m (e\<lparr>open_ok := a, errorCode_102 := c, write_ok := b\<rparr>) s = alarm_logic m e s"
  by (simp add: alarm_logic_def Let_def)

lemma loop_front_storage:
  "loop_front fft (e\<lparr>open_ok := a, errorCode_102 := c, write_ok := b\<rparr>) s = loop_front fft e s"
  by (simp add: loop_front_def alarm_logic_storage)

lemma error_P_lines: "filter (\<lambda>m. \<not> error_line m) (error_P str code) = []"
  by (simp add: error_P_def)

lemma loop_back_storage:
  "fst (loop_back N (e\<lparr>open_ok := a, errorCode_102 := c, write_ok := b\<rparr>) s) =
   fst (loop_back N e s)"
  "buzzer (snd (loop_back N (e\<lparr>open_ok := a, errorCode_102 := c, write_ok := b\<rparr>) s)) =
   buzzer (snd (loop_back N e s))"
  "filter (\<lambda>m. \<not> error_line m)
     (serial (snd (loop_back N (e\<lparr>open_ok := a, errorCode_102 := c, write_ok := b\<rparr>) s))) =
   filter (\<lambda>m. \<not> error_line m) (serial (snd (loop_back N e s)))"
  by (simp_all add: loop_back_def log_logic_def alert_logic_def out_app_def say_def Let_def
      case_prod_beta error_P_lines)

lemma pass_storage:
  "fst (pass N fft s (rs, e\<lparr>open_ok := a, errorCode_102 := c, write_ok := b\<rparr>)) =
   fst (pass N fft s (rs, e))"
  "buzzer (snd (pass N fft s (rs, e\<lparr>open_ok := a, errorCode_102 := c, write_ok := b\<rparr>))) =
   buzzer (snd (pass N fft s (rs, e)))"
  "filter (\<lambda>m. \<not> error_line m)
     (serial (snd (pass N fft s (rs, e\<lparr>open_ok := a, errorCode_102 := c, write_ok := b\<rparr>)))) =
   filter (\<lambda>m. \<not> error_line m) (serial (snd (pass N fft s (rs, e))))"
  by (simp_all add: pass_def loop_def loop_preempted_def loop_front_storage loop_back_storage
      out_app_def say_def case_prod_beta ticks_Nil)

lemma pass_open_failure_logged:
  assumes "\<not> open_ok (snd w)" "WritingLog \<in> set (serial (snd (pass N fft s w)))"
  shows "ErrorMsg ''create'' \<in> set (serial (snd (pass N fft s w))) \<and>
         (errorCode_102 (snd w) \<noteq> 0 \<longrightarrow>
            SdErrorMsg (errorCode_102 (snd w)) \<in> set (serial (snd (pass N fft s w)))) \<and>
         logfile (snd (pass N fft s w)) = []"
  using assms
  by (auto simp add: pass_def loop_def loop_preempted_def loop_front_def loop_back_def
      log_logic_def alarm_logic_def alert_logic_def out_app_def say_def error_P_def Let_def
      case_prod_beta ticks_Nil split: if_splits)

lemma pass_write_failure_silent:
  assumes "open_ok (snd w)"
  shows "filter error_line (serial (snd (pass N fft s w))) = []"
  using assms
  by (simp add: pass_def loop_def loop_preempted_def loop_front_def loop_back_def
      log_logic_def alarm_logic_def alert_logic_def out_app_def say_def Let_def
      case_prod_beta ticks_Nil)

text \<open>
  Claim C9, as amended. For any run of windows, with the log file failing to open
  or the writes to it failing in any of them, and whatever error code the card
  reports: the state after every window, the calls on the buzzer and the serial
  lines other than those of \<^verbatim>\<open>error_P\<close> are those of the same run with the storage
  working. A pass that writes a record while the file is not open prints the error
  line, and the error code of the card when it is not zero, and goes on. A pass
  whose file is open prints no error line, whether its writes succeed or not.
\<close>

theorem storage_failure_not_fatal:
  "map fst (passes N fft s ws) =
     map fst (passes N fft s
       (map (\<lambda>w. (fst w, (snd w)\<lparr>open_ok := True, errorCode_102 := 0, write_ok := True\<rparr>)) ws)) \<and>
   map (\<lambda>r. buzzer (snd r)) (passes N fft s ws) =
     map (\<lambda>r. buzzer (snd r)) (passes N fft s
       (map (\<lambda>w. (fst w, (snd w)\<lparr>open_ok := True, errorCode_102 := 0, write_ok := True\<rparr>)) ws)) \<and>
   map (\<lambda>r. filter (\<lambda>m. \<not> error_line m) (serial (snd r))) (passes N fft s ws) =
     map (\<lambda>r. filter (\<lambda>m. \<not> error_line m) (serial (snd r))) (passes N fft s
       (map (\<lambda>w. (fst w, (snd w)\<lparr>open_ok := True, errorCode_102 := 0, write_ok := True\<rparr>)) ws)) \<and>
   (\<forall>k<length ws.
      \<not> open_ok (snd (ws ! k)) \<and> WritingLog \<in> set (serial (snd (passes N fft s ws ! k))) \<longrightarrow>
      ErrorMsg ''create'' \<in> set (serial (snd (passes N fft s ws ! k))) \<and>
      (errorCode_102 (snd (ws ! k)) \<noteq> 0 \<longrightarrow>
         SdErrorMsg (errorCode_102 (snd (ws ! k))) \<in> set (serial (snd (passes N fft s ws ! k)))) \<and>
      logfile (snd (passes N fft s ws ! k)) = []) \<and>
   (\<forall>k<length ws.
      open_ok (snd (ws ! k)) \<longrightarrow>
      filter error_line (serial (snd (passes N fft s ws ! k))) = [])"
proof (induction ws arbitrary: s)
  case Nil
  show ?case by simp
next
  case (Cons w ws)
  obtain rs e where w: "w = (rs, e)" by (cases w)
  note po = pass_storage [where a = True and c = 0 and b = True]
  note ih = Cons.IH [of "fst (pass N fft s w)"]
  have logged: "\<forall>k<length (w # ws).
      \<not> open_ok (snd ((w # ws) ! k)) \<and>
      WritingLog \<in> set (serial (snd (passes N fft s (w # ws) ! k))) \<longrightarrow>
      ErrorMsg ''create'' \<in> set (serial (snd (passes N fft s (w # ws) ! k))) \<and>
      (errorCode_102 (snd ((w # ws) ! k)) \<noteq> 0 \<longrightarrow>
         SdErrorMsg (errorCode_102 (snd ((w # ws) ! k))) \<in>
           set (serial (snd (passes N fft s (w # ws) ! k)))) \<and>
      logfile (snd (passes N fft s (w # ws) ! k)) = []"
  proof (intro allI impI)
    fix k
    assume k: "k < length (w # ws)"
      and f: "\<not> open_ok (snd ((w # ws) ! k)) \<and>
        WritingLog \<in> set (serial (snd (passes N fft s (w # ws) ! k)))"
    show "ErrorMsg ''create'' \<in> set (serial (snd (passes N fft s (w # ws) ! k))) \<and>
      (errorCode_102 (snd ((w # ws) ! k)) \<noteq> 0 \<longrightarrow>
         SdErrorMsg (errorCode_102 (snd ((w # ws) ! k))) \<in>
           set (serial (snd (passes N fft s (w # ws) ! k)))) \<and>
      logfile (snd (passes N fft s (w # ws) ! k)) = []"
    proof (cases k)
      case 0
      with f show ?thesis using pass_open_failure_logged [of w N fft s] by simp
    next
      case (Suc j)
      with k f ih show ?thesis by simp
    qed
  qed
  have silent: "\<forall>k<length (w # ws).
      open_ok (snd ((w # ws) ! k)) \<longrightarrow>
      filter error_line (serial (snd (passes N fft s (w # ws) ! k))) = []"
  proof (intro allI impI)
    fix k
    assume k: "k < length (w # ws)" and f: "open_ok (snd ((w # ws) ! k))"
    show "filter error_line (serial (snd (passes N fft s (w # ws) ! k))) = []"
    proof (cases k)
      case 0
      with f show ?thesis using pass_write_failure_silent [of w N fft s] by simp
    next
      case (Suc j)
      with k f ih show ?thesis by simp
    qed
  qed
  have eqs: "map fst (passes N fft s (w # ws)) =
     map fst (passes N fft s
       (map (\<lambda>w. (fst w, (snd w)\<lparr>open_ok := True, errorCode_102 := 0, write_ok := True\<rparr>)) (w # ws)))"
    "map (\<lambda>r. buzzer (snd r)) (passes N fft s (w # ws)) =
     map (\<lambda>r. buzzer (snd r)) (passes N fft s
       (map (\<lambda>w. (fst w, (snd w)\<lparr>open_ok := True, errorCode_102 := 0, write_ok := True\<rparr>)) (w # ws)))"
    "map (\<lambda>r. filter (\<lambda>m. \<not> error_line m) (serial (snd r))) (passes N fft s (w # ws)) =
     map (\<lambda>r. filter (\<lambda>m. \<not> error_line m) (serial (snd r))) (passes N fft s
       (map (\<lambda>w. (fst w, (snd w)\<lparr>open_ok := True, errorCode_102 := 0, write_ok := True\<rparr>)) (w # ws)))"
    using ih by (simp_all add: w po)
  show ?case using eqs logged silent by (intro conjI)
qed

section \<open>Runs on example inputs\<close>

lemma maxChan_of_replicate:
  assumes "mon_freq_ch_max < n"
  shows "maxChan_of (replicate n v) = v"
proof -
  have "\<forall>i\<in>{mon_freq_ch_min..mon_freq_ch_max}. replicate n v ! i = v"
    using assms by simp
  then have "(!) (replicate n v) ` {mon_freq_ch_min..mon_freq_ch_max} =
             (\<lambda>i. v) ` {mon_freq_ch_min..mon_freq_ch_max}"
    by (intro image_cong) simp_all
  also have "\<dots> = {v}"
    by (simp add: image_constant_conv mon_freq_ch_min_def mon_freq_ch_max_def)
  finally show ?thesis by (simp add: maxChan_of_Max)
qed

lemma band_energy_window_of:
  "band_energy 128 example_fft (window_of v e) = sample v v v"
  by (simp add: band_energy_def window_of_def example_fft_def sample_of_def
      maxChan_of_replicate mon_freq_ch_max_def)

lemma sample_9: "sample 9 9 9 = 9"
  by (simp add: sample_def signed_divide_int_def)

lemma sample_3: "sample 3 3 3 = 3"
  by (simp add: sample_def signed_divide_int_def)

lemma armed_setup: "armed N (setup_globals N t)"
  by (simp add: armed_def setup_globals_def)

lemma window_of_full: "128 \<le> length (fst (window_of v e))"
  by (simp add: window_of_def)

theorem escalation_timing_witness:
  "(128::nat) \<le> 255 \<and> armed 128 (setup_globals 128 0) \<and>
   \<not> mon_thresh_exceeded (setup_globals 128 0) \<and>
   \<not> mon_warn_state (setup_globals 128 0) \<and>
   \<not> mon_alarm_state (setup_globals 128 0) \<and>
   list_all (\<lambda>w. 128 \<le> length (fst w) \<and> mon_thresh \<le>s band_energy 128 example_fft w)
     [window_of 9 (env_at 10000 10 True), window_of 9 (env_at 12000 12 True),
      window_of 9 (env_at 14000 14 True), window_of 9 (env_at 16000 16 True)] \<and>
   sorted (elapsed_readings (millis_268 (snd (window_of 9 (env_at 10000 10 True))))
     [window_of 9 (env_at 10000 10 True), window_of 9 (env_at 12000 12 True),
      window_of 9 (env_at 14000 14 True), window_of 9 (env_at 16000 16 True)]) \<and>
   millis_274 (snd (window_of 9 (env_at 10000 10 True))) -
     millis_268 (snd (window_of 9 (env_at 10000 10 True))) < mon_warn_millis \<and>
   tag_of (fst (passes 128 example_fft (setup_globals 128 0)
     [window_of 9 (env_at 10000 10 True), window_of 9 (env_at 12000 12 True),
      window_of 9 (env_at 14000 14 True), window_of 9 (env_at 16000 16 True)] ! 0)) = TagPoss \<and>
   mon_warn_state (fst (passes 128 example_fft (setup_globals 128 0)
     [window_of 9 (env_at 10000 10 True), window_of 9 (env_at 12000 12 True),
      window_of 9 (env_at 14000 14 True), window_of 9 (env_at 16000 16 True)] ! 1)) \<and>
   mon_warn_state (fst (passes 128 example_fft (setup_globals 128 0)
     [window_of 9 (env_at 10000 10 True), window_of 9 (env_at 12000 12 True),
      window_of 9 (env_at 14000 14 True), window_of 9 (env_at 16000 16 True)] ! 2)) \<and>
   mon_alarm_state (fst (passes 128 example_fft (setup_globals 128 0)
     [window_of 9 (env_at 10000 10 True), window_of 9 (env_at 12000 12 True),
      window_of 9 (env_at 14000 14 True), window_of 9 (env_at 16000 16 True)] ! 3))"
proof -
  let ?w0 = "window_of 9 (env_at 10000 10 True)"
  let ?ws = "[window_of 9 (env_at 12000 12 True),
      window_of 9 (env_at 14000 14 True), window_of 9 (env_at 16000 16 True)]"
  let ?s = "setup_globals 128 0"
  have h1: "(128::nat) \<le> 255" by simp
  have h2: "armed 128 ?s" by (rule armed_setup)
  have h3: "\<not> mon_thresh_exceeded ?s" "\<not> mon_warn_state ?s" "\<not> mon_alarm_state ?s"
    by (simp_all add: setup_globals_def)
  have h4: "\<forall>w\<in>set (?w0 # ?ws). 128 \<le> length (fst w)"
    by (simp add: window_of_full)
  have h5: "\<forall>w\<in>set (?w0 # ?ws). mon_thresh \<le>s band_energy 128 example_fft w"
    by (simp add: band_energy_window_of sample_9 mon_thresh_def)
  have h6: "sorted (elapsed_readings (millis_268 (snd ?w0)) (?w0 # ?ws))"
    by (simp add: elapsed_readings_def window_of_def env_at_def)
  have h7: "millis_274 (snd ?w0) - millis_268 (snd ?w0) < mon_warn_millis"
    by (simp add: window_of_def env_at_def mon_warn_millis_def)
  note t = escalation_timing [OF h1 h2 h3 h4 h5 h6 h7]
  from t have c0: "tag_of (fst (passes 128 example_fft ?s (?w0 # ?ws) ! 0)) = TagPoss"
    by blast
  from t have each: "\<And>k. k < 4 \<Longrightarrow>
      (millis_270 (snd ((?w0 # ?ws) ! k)) - millis_268 (snd ?w0) < mon_alarm_millis \<and>
       mon_warn_millis \<le> millis_274 (snd ((?w0 # ?ws) ! k)) - millis_268 (snd ?w0) \<longrightarrow>
         mon_warn_state (fst (passes 128 example_fft ?s (?w0 # ?ws) ! k))) \<and>
      (mon_alarm_millis \<le> millis_270 (snd ((?w0 # ?ws) ! k)) - millis_268 (snd ?w0) \<longrightarrow>
         mon_alarm_state (fst (passes 128 example_fft ?s (?w0 # ?ws) ! k)))"
    by simp
  have c1: "mon_warn_state (fst (passes 128 example_fft ?s (?w0 # ?ws) ! 1))"
    using each [of 1]
    by (simp add: window_of_def env_at_def mon_warn_millis_def mon_alarm_millis_def)
  have c2: "mon_warn_state (fst (passes 128 example_fft ?s (?w0 # ?ws) ! 2))"
    using each [of 2]
    by (simp add: window_of_def env_at_def mon_warn_millis_def mon_alarm_millis_def)
  have c3: "mon_alarm_state (fst (passes 128 example_fft ?s (?w0 # ?ws) ! 3))"
    using each [of 3]
    by (simp add: window_of_def env_at_def mon_warn_millis_def mon_alarm_millis_def)
  have h45: "list_all (\<lambda>w. 128 \<le> length (fst w) \<and> mon_thresh \<le>s band_energy 128 example_fft w)
      (?w0 # ?ws)"
    using h4 h5 by (simp add: list_all_iff)
  show ?thesis using h1 h2 h3 h45 h6 h7 c0 c1 c2 c3 by blast
qed

theorem band_energy_is_band_maximum_witness:
  "mon_freq_ch_max <
     length ((\<lambda>c. [0, 0, 0, 0, 0, 0, 3, 9, 4, 1, 8, 0 :: u16]) (capture (setup_globals 128 0))) \<and>
   maxChan_of [0, 0, 0, 0, 0, 0, 3, 9, 4, 1, 8, 0] =
     Max ((!) [0, 0, 0, 0, 0, 0, 3, 9, 4, 1, 8, 0] ` {mon_freq_ch_min..mon_freq_ch_max}) \<and>
   mon_freq_ch_max \<in> {mon_freq_ch_min..mon_freq_ch_max} \<and>
   [0, 0, 0, 0, 0, 0, 3, 9, 4, 1, 8, 0] ! mon_freq_ch_max \<le>
     maxChan_of [0, 0, 0, 0, 0, 0, 3, 9, 4, 1, 8, 0] \<and>
   maxChan_of [0, 0, 0, 0, 0, 0, 3, 9, 4, 1, 8, 0] < 2 ^ 15 \<and>
   sint (maxChan_of [0, 0, 0, 0, 0, 0, 3, 9, 4, 1, 8, 0]) =
     uint (maxChan_of [0, 0, 0, 0, 0, 0, 3, 9, 4, 1, 8, 0])"
proof -
  let ?sp = "[0, 0, 0, 0, 0, 0, 3, 9, 4, 1, 8, 0] :: u16 list"
  have h: "mon_freq_ch_max < length ((\<lambda>c. ?sp) (capture (setup_globals 128 0)))"
    by (simp add: mon_freq_ch_max_def)
  have v: "maxChan_of ?sp = 9"
    by (simp add: maxChan_of_def mon_freq_ch_min_def mon_freq_ch_max_def)
  have small: "maxChan_of ?sp < 2 ^ 15" by (simp add: v)
  note t = band_energy_is_band_maximum [of "\<lambda>c. ?sp" "setup_globals 128 0" "env_at 0 0 True", OF h]
  from t have m: "maxChan_of ?sp = Max ((!) ?sp ` {mon_freq_ch_min..mon_freq_ch_max})"
    by blast
  from t have e: "mon_freq_ch_max \<in> {mon_freq_ch_min..mon_freq_ch_max}" by blast
  from t e have u: "?sp ! mon_freq_ch_max \<le> maxChan_of ?sp" by blast
  from t small have sg: "sint (maxChan_of ?sp) = uint (maxChan_of ?sp)" by blast
  show ?thesis using h m e u small sg by blast
qed

theorem idle_stays_idle_witness:
  "(128::nat) \<le> 255 \<and> armed 128 (setup_globals 128 0) \<and>
   \<not> mon_thresh_exceeded (setup_globals 128 0) \<and>
   \<not> mon_warn_state (setup_globals 128 0) \<and>
   \<not> mon_alarm_state (setup_globals 128 0) \<and>
   list_all (\<lambda>w. 128 \<le> length (fst w) \<and> band_energy 128 example_fft w <s mon_thresh)
     [window_of 3 (env_at 10000 10 True), window_of 3 (env_at 12000 12 True)] \<and>
   passes 128 example_fft (setup_globals 128 0)
     [window_of 3 (env_at 10000 10 True), window_of 3 (env_at 12000 12 True)] ! 1 \<in>
   set (passes 128 example_fft (setup_globals 128 0)
     [window_of 3 (env_at 10000 10 True), window_of 3 (env_at 12000 12 True)]) \<and>
   tag_of (fst (passes 128 example_fft (setup_globals 128 0)
     [window_of 3 (env_at 10000 10 True), window_of 3 (env_at 12000 12 True)] ! 1)) = TagBlank \<and>
   set (buzzer (snd (passes 128 example_fft (setup_globals 128 0)
     [window_of 3 (env_at 10000 10 True), window_of 3 (env_at 12000 12 True)] ! 1))) \<subseteq> {NoTone}"
proof -
  let ?ws = "[window_of 3 (env_at 10000 10 True), window_of 3 (env_at 12000 12 True)]"
  let ?s = "setup_globals 128 0"
  have h1: "(128::nat) \<le> 255" by simp
  have h2: "armed 128 ?s" by (rule armed_setup)
  have h3: "\<not> mon_thresh_exceeded ?s" "\<not> mon_warn_state ?s" "\<not> mon_alarm_state ?s"
    by (simp_all add: setup_globals_def)
  have h4: "\<forall>w\<in>set ?ws. 128 \<le> length (fst w)" by (simp add: window_of_full)
  have h5: "\<forall>w\<in>set ?ws. band_energy 128 example_fft w <s mon_thresh"
    by (simp add: band_energy_window_of sample_3 mon_thresh_def)
  have m: "passes 128 example_fft ?s ?ws ! 1 \<in> set (passes 128 example_fft ?s ?ws)"
    by (rule nth_mem) (simp add: passes_length)
  note t = idle_stays_idle [OF h1 h2 h3 h4 h5]
  from t m have c: "tag_of (fst (passes 128 example_fft ?s ?ws ! 1)) = TagBlank"
    "set (buzzer (snd (passes 128 example_fft ?s ?ws ! 1))) \<subseteq> {NoTone}"
    by blast+
  have h45: "list_all (\<lambda>w. 128 \<le> length (fst w) \<and> band_energy 128 example_fft w <s mon_thresh) ?ws"
    using h4 h5 by (simp add: list_all_iff)
  show ?thesis using h1 h2 h3 h45 m c by blast
qed

lemma pass_logfile:
  assumes "N \<le> 255" "armed N s" "N \<le> length (fst w)"
  shows "length (logfile (snd (pass N fft s w))) =
         (if (mon_thresh \<le>s band_energy N fft w \<or>
              last_log_millis s + log_millis < millis_297 (snd w)) \<and>
             open_ok (snd w) \<and> write_ok (snd w)
          then 1 else 0)"
  by (simp add: pass_window [OF assms] loop_back_def log_logic_def alarm_logic_def Let_def
      case_prod_beta out_app_def say_def alert_logic_def)

lemma snd_window_of: "snd (window_of v e) = e"
  by (simp add: window_of_def)

theorem storage_failure_not_fatal_witness:
  "(0::nat) < length [window_of 9 (env_at 10000 10 False\<lparr>errorCode_102 := 4\<rparr>),
                      window_of 9 (env_at 12000 12 True\<lparr>write_ok := False\<rparr>)] \<and>
   \<not> open_ok (snd ([window_of 9 (env_at 10000 10 False\<lparr>errorCode_102 := 4\<rparr>),
                       window_of 9 (env_at 12000 12 True\<lparr>write_ok := False\<rparr>)] ! 0)) \<and>
   errorCode_102 (snd ([window_of 9 (env_at 10000 10 False\<lparr>errorCode_102 := 4\<rparr>),
                        window_of 9 (env_at 12000 12 True\<lparr>write_ok := False\<rparr>)] ! 0)) \<noteq> 0 \<and>
   WritingLog \<in> set (serial (snd (passes 128 example_fft (setup_globals 128 0)
      [window_of 9 (env_at 10000 10 False\<lparr>errorCode_102 := 4\<rparr>),
       window_of 9 (env_at 12000 12 True\<lparr>write_ok := False\<rparr>)] ! 0))) \<and>
   ErrorMsg ''create'' \<in> set (serial (snd (passes 128 example_fft (setup_globals 128 0)
      [window_of 9 (env_at 10000 10 False\<lparr>errorCode_102 := 4\<rparr>),
       window_of 9 (env_at 12000 12 True\<lparr>write_ok := False\<rparr>)] ! 0))) \<and>
   SdErrorMsg 4 \<in> set (serial (snd (passes 128 example_fft (setup_globals 128 0)
      [window_of 9 (env_at 10000 10 False\<lparr>errorCode_102 := 4\<rparr>),
       window_of 9 (env_at 12000 12 True\<lparr>write_ok := False\<rparr>)] ! 0))) \<and>
   (1::nat) < length [window_of 9 (env_at 10000 10 False\<lparr>errorCode_102 := 4\<rparr>),
                      window_of 9 (env_at 12000 12 True\<lparr>write_ok := False\<rparr>)] \<and>
   open_ok (snd ([window_of 9 (env_at 10000 10 False\<lparr>errorCode_102 := 4\<rparr>),
                  window_of 9 (env_at 12000 12 True\<lparr>write_ok := False\<rparr>)] ! 1)) \<and>
   filter error_line (serial (snd (passes 128 example_fft (setup_globals 128 0)
      [window_of 9 (env_at 10000 10 False\<lparr>errorCode_102 := 4\<rparr>),
       window_of 9 (env_at 12000 12 True\<lparr>write_ok := False\<rparr>)] ! 1))) = [] \<and>
   map fst (passes 128 example_fft (setup_globals 128 0)
      [window_of 9 (env_at 10000 10 False\<lparr>errorCode_102 := 4\<rparr>),
       window_of 9 (env_at 12000 12 True\<lparr>write_ok := False\<rparr>)]) =
   map fst (passes 128 example_fft (setup_globals 128 0)
     (map (\<lambda>w. (fst w, (snd w)\<lparr>open_ok := True, errorCode_102 := 0, write_ok := True\<rparr>))
        [window_of 9 (env_at 10000 10 False\<lparr>errorCode_102 := 4\<rparr>),
         window_of 9 (env_at 12000 12 True\<lparr>write_ok := False\<rparr>)]))"
proof -
  let ?w1 = "window_of 9 (env_at 10000 10 False\<lparr>errorCode_102 := 4\<rparr>)"
  let ?w2 = "window_of 9 (env_at 12000 12 True\<lparr>write_ok := False\<rparr>)"
  let ?s = "setup_globals 128 0"
  let ?tr = "passes 128 example_fft ?s [?w1, ?w2]"
  have k0: "(0::nat) < length [?w1, ?w2]" and k1: "(1::nat) < length [?w1, ?w2]"
    by simp_all
  have f: "\<not> open_ok (snd ([?w1, ?w2] ! 0))"
    by (simp add: window_of_def env_at_def)
  have c: "errorCode_102 (snd ([?w1, ?w2] ! 0)) = 4"
    by (simp add: window_of_def env_at_def)
  have c0: "errorCode_102 (snd ([?w1, ?w2] ! 0)) \<noteq> 0"
    unfolding c by simp
  have g: "open_ok (snd ([?w1, ?w2] ! 1))"
    by (simp add: window_of_def env_at_def)
  have "WritingLog \<in> set (serial (snd (pass 128 example_fft ?s ?w1)))"
    by (simp add: pass_serial [OF _ armed_setup window_of_full] band_energy_window_of sample_9
        mon_thresh_def)
  then have l: "WritingLog \<in> set (serial (snd (?tr ! 0)))"
    by simp
  note t = storage_failure_not_fatal [of 128 example_fft ?s "[?w1, ?w2]"]
  note t1 = t [THEN conjunct1]
  note t4 = t [THEN conjunct2, THEN conjunct2, THEN conjunct2, THEN conjunct1, rule_format, OF k0]
  note t5 = t [THEN conjunct2, THEN conjunct2, THEN conjunct2, THEN conjunct2, rule_format, OF k1 g]
  from t4 f l have e: "ErrorMsg ''create'' \<in> set (serial (snd (?tr ! 0)))"
    by (simp only: simp_thms)
  from t4 f l c0 have d: "SdErrorMsg (errorCode_102 (snd ([?w1, ?w2] ! 0))) \<in>
      set (serial (snd (?tr ! 0)))"
    by (simp only: simp_thms)
  then have d4: "SdErrorMsg 4 \<in> set (serial (snd (?tr ! 0)))"
    by (simp only: c)
  show ?thesis
    using k0 f c0 l e d4 k1 g t5 t1 by (intro conjI)
qed

text \<open>
  Claim C9 as stated, that a failure to write the record is logged, fails on the
  first window after \<^verbatim>\<open>setup()\<close> when the file opens and the writes to it fail:
  the record does not reach the card and the pass prints its usual lines and no
  error line.
\<close>

theorem write_failure_not_logged:
  "open_ok (snd (window_of 9 (env_at 10000 10 True\<lparr>write_ok := False\<rparr>))) \<and>
   \<not> write_ok (snd (window_of 9 (env_at 10000 10 True\<lparr>write_ok := False\<rparr>))) \<and>
   length (logfile (snd (pass 128 example_fft (setup_globals 128 0)
     (window_of 9 (env_at 10000 10 True\<lparr>write_ok := False\<rparr>))))) = 0 \<and>
   serial (snd (pass 128 example_fft (setup_globals 128 0)
     (window_of 9 (env_at 10000 10 True\<lparr>write_ok := False\<rparr>)))) =
     [SpectrumDump (example_fft (replicate 128 9)), NewEvent, PreAlarmMsg, WritingLog]"
proof -
  let ?e = "env_at 10000 10 True\<lparr>write_ok := False\<rparr>"
  let ?w = "window_of 9 ?e"
  let ?s = "setup_globals 128 0"
  have e: "open_ok ?e" "\<not> write_ok ?e" "millis_268 ?e = 10000" "millis_270 ?e = 10000"
    "millis_274 ?e = 10000"
    by (simp_all add: env_at_def)
  have hot: "mon_thresh \<le>s band_energy 128 example_fft ?w"
    by (simp add: band_energy_window_of sample_9 mon_thresh_def)
  have idle: "\<not> mon_thresh_exceeded ?s" by (simp add: setup_globals_def)
  have sm: "map sample_of (take 128 (fst ?w)) = replicate 128 9"
    by (simp add: window_of_def sample_of_def sample_9)
  have n: "length (logfile (snd (pass 128 example_fft ?s ?w))) = 0"
    using e(2) by (simp add: pass_logfile [OF _ armed_setup window_of_full] snd_window_of)
  have sr: "serial (snd (pass 128 example_fft ?s ?w)) =
      [SpectrumDump (example_fft (replicate 128 9)), NewEvent, PreAlarmMsg, WritingLog]"
    using hot idle e
    by (simp add: pass_serial [OF _ armed_setup window_of_full] snd_window_of sm
        mon_alarm_millis_def mon_warn_millis_def)
  show ?thesis using e(1,2) n sr by (simp only: snd_window_of simp_thms)
qed

lemma setup_fields:
  "mon_thresh_exceeded (setup_globals N t) = False"
  "mon_warn_state (setup_globals N t) = False"
  "mon_alarm_state (setup_globals N t) = False"
  "mon_lastreset_millis (setup_globals N t) = t"
  "mon_thresh_millis (setup_globals N t) = 0"
  "last_log_millis (setup_globals N t) = 0"
  by (simp_all add: setup_globals_def)

lemmas pass_fields = pass_exceeded pass_since pass_lastreset pass_alarm pass_warn pass_last_log

theorem dip_restarts_escalation_witness:
  "(128::nat) \<le> 255 \<and>
   armed 128 (setup_globals 128 0
     \<lparr>mon_thresh_exceeded := True, mon_alarm_state := True, mon_thresh_millis := 10000\<rparr>) \<and>
   [window_of 3 (env_at 18000 18 True)] \<noteq> [] \<and>
   list_all (\<lambda>b. 128 \<le> length (fst b) \<and> band_energy 128 example_fft b <s mon_thresh)
     [window_of 3 (env_at 18000 18 True)] \<and>
   128 \<le> length (fst (window_of 9 (env_at 20000 20 True))) \<and>
   mon_thresh \<le>s band_energy 128 example_fft (window_of 9 (env_at 20000 20 True)) \<and>
   millis_270 (snd (window_of 9 (env_at 20000 20 True))) -
     millis_268 (snd (window_of 9 (env_at 20000 20 True))) < mon_alarm_millis \<and>
   millis_274 (snd (window_of 9 (env_at 20000 20 True))) -
     millis_268 (snd (window_of 9 (env_at 20000 20 True))) < mon_warn_millis \<and>
   mon_thresh_exceeded (setup_globals 128 0
     \<lparr>mon_thresh_exceeded := True, mon_alarm_state := True, mon_thresh_millis := 10000\<rparr>) \<and>
   mon_thresh_millis (fst (last (passes 128 example_fft
     (setup_globals 128 0
       \<lparr>mon_thresh_exceeded := True, mon_alarm_state := True, mon_thresh_millis := 10000\<rparr>)
     ([window_of 3 (env_at 18000 18 True)] @ [window_of 9 (env_at 20000 20 True)])))) = 20000 \<and>
   PreAlarmMsg \<in> set (serial (snd (last (passes 128 example_fft
     (setup_globals 128 0
       \<lparr>mon_thresh_exceeded := True, mon_alarm_state := True, mon_thresh_millis := 10000\<rparr>)
     ([window_of 3 (env_at 18000 18 True)] @ [window_of 9 (env_at 20000 20 True)]))))) \<and>
   mon_alarm_state (fst (last (passes 128 example_fft
     (setup_globals 128 0
       \<lparr>mon_thresh_exceeded := True, mon_alarm_state := True, mon_thresh_millis := 10000\<rparr>)
     ([window_of 3 (env_at 18000 18 True)] @ [window_of 9 (env_at 20000 20 True)]))))"
proof -
  let ?s = "setup_globals 128 0
     \<lparr>mon_thresh_exceeded := True, mon_alarm_state := True, mon_thresh_millis := 10000\<rparr>"
  let ?bs = "[window_of 3 (env_at 18000 18 True)]"
  let ?w = "window_of 9 (env_at 20000 20 True)"
  have h1: "(128::nat) \<le> 255" by simp
  have h2: "armed 128 ?s" by (simp add: armed_def setup_globals_def)
  have h3: "?bs \<noteq> []" by simp
  have h4: "\<forall>b\<in>set ?bs. 128 \<le> length (fst b)" "128 \<le> length (fst ?w)"
    by (simp_all add: window_of_full)
  have h5: "\<forall>b\<in>set ?bs. band_energy 128 example_fft b <s mon_thresh"
    by (simp add: band_energy_window_of sample_3 mon_thresh_def)
  have h6: "mon_thresh \<le>s band_energy 128 example_fft ?w"
    by (simp add: band_energy_window_of sample_9 mon_thresh_def)
  have h7: "millis_270 (snd ?w) - millis_268 (snd ?w) < mon_alarm_millis"
    "millis_274 (snd ?w) - millis_268 (snd ?w) < mon_warn_millis"
    by (simp_all add: window_of_def env_at_def mon_alarm_millis_def mon_warn_millis_def)
  have h8: "mon_thresh_exceeded ?s" by simp
  have h9: "mon_alarm_state ?s" by simp
  note t = dip_restarts_escalation [OF h1 h2 h3 h4 h5 h6 h7]
  have hd_last: "hd (passes 128 example_fft ?s ?bs) = last (passes 128 example_fft ?s ?bs)"
    by simp
  from t have c1: "mon_thresh_millis (fst (last (passes 128 example_fft ?s (?bs @ [?w])))) = 20000"
    by (simp add: window_of_def env_at_def)
  from t have c2: "PreAlarmMsg \<in> set (serial (snd (last (passes 128 example_fft ?s (?bs @ [?w])))))"
    by blast
  from t h8 have "mon_alarm_state (fst (hd (passes 128 example_fft ?s ?bs))) = mon_alarm_state ?s"
    by blast
  moreover from t have "mon_alarm_state (fst (last (passes 128 example_fft ?s (?bs @ [?w])))) =
           mon_alarm_state (fst (last (passes 128 example_fft ?s ?bs)))"
    by blast
  ultimately have c3: "mon_alarm_state (fst (last (passes 128 example_fft ?s (?bs @ [?w]))))"
    using h9 unfolding hd_last by blast
  have h45: "list_all (\<lambda>b. 128 \<le> length (fst b) \<and> band_energy 128 example_fft b <s mon_thresh) ?bs"
    using h4(1) h5 by (simp add: list_all_iff)
  show ?thesis using h1 h2 h3 h45 h4(2) h6 h7 h8 c1 c2 c3 by blast
qed

text \<open>
  Claim C3 fails on the program. Line 283 stores \<^verbatim>\<open>now()\<close>, a count of seconds, in
  \<open>mon_lastreset_millis\<close>, and line 289 subtracts it from \<^verbatim>\<open>millis()\<close>. In the run
  \<open>seizure_then_quiet\<close> the alarm is on after the fourth window and still on after
  the fifth, the first below the threshold; the sixth window comes 1990 ms later,
  less than \<open>mon_reset_millis\<close>, and clears the alarm.
\<close>

theorem reset_debounce_mixes_clocks:
  "mon_alarm_state (fst (passes 128 example_fft (setup_globals 128 1383000000) seizure_then_quiet ! 3)) \<and>
   mon_alarm_state (fst (passes 128 example_fft (setup_globals 128 1383000000) seizure_then_quiet ! 4)) \<and>
   mon_lastreset_millis
     (fst (passes 128 example_fft (setup_globals 128 1383000000) seizure_then_quiet ! 4)) =
     now_283 (snd (seizure_then_quiet ! 4)) \<and>
   millis_289 (snd (seizure_then_quiet ! 5)) - millis_297 (snd (seizure_then_quiet ! 4)) = 1990 \<and>
   (1990 :: u32) < mon_reset_millis \<and>
   \<not> mon_alarm_state (fst (passes 128 example_fft (setup_globals 128 1383000000) seizure_then_quiet ! 5)) \<and>
   buzzer (snd (passes 128 example_fft (setup_globals 128 1383000000) seizure_then_quiet ! 5)) = [NoTone]"
  by (simp add: seizure_then_quiet_def pass_fields pass_buzzer pass_armed armed_setup window_of_full
      band_energy_window_of sample_9 sample_3 mon_thresh_def mon_alarm_millis_def
      mon_warn_millis_def mon_reset_millis_def setup_fields snd_window_of env_at_def)

text \<open>
  Claim C4 fails on the program. Line 297 compares \<^verbatim>\<open>millis()\<close> with the sum
  \<^verbatim>\<open>last_log_millis + log_millis\<close>, which rolls over. On an idle monitor whose last
  record was written at 4294908296 ms, a window below the threshold 2000 ms later
  writes a record, although \<open>log_millis\<close> is 60000.
\<close>

theorem log_throttle_wraps:
  "\<not> mon_thresh_exceeded (setup_globals 128 1383000000\<lparr>last_log_millis := 4294908296\<rparr>) \<and>
   \<not> mon_thresh \<le>s band_energy 128 example_fft (window_of 3 (env_at 4294910296 1387294910 True)) \<and>
   millis_297 (snd (window_of 3 (env_at 4294910296 1387294910 True))) -
     last_log_millis (setup_globals 128 1383000000\<lparr>last_log_millis := 4294908296\<rparr>) = 2000 \<and>
   (2000 :: u32) < log_millis \<and>
   length (logfile (snd (pass 128 example_fft
     (setup_globals 128 1383000000\<lparr>last_log_millis := 4294908296\<rparr>)
     (window_of 3 (env_at 4294910296 1387294910 True))))) = 1 \<and>
   last_log_millis (fst (pass 128 example_fft
     (setup_globals 128 1383000000\<lparr>last_log_millis := 4294908296\<rparr>)
     (window_of 3 (env_at 4294910296 1387294910 True)))) = 4294910296"
proof -
  let ?s = "setup_globals 128 1383000000\<lparr>last_log_millis := 4294908296\<rparr>"
  let ?w = "window_of 3 (env_at 4294910296 1387294910 True)"
  have a: "armed 128 ?s" by (simp add: armed_def setup_globals_def)
  have c: "\<not> mon_thresh \<le>s band_energy 128 example_fft ?w"
    by (simp add: band_energy_window_of sample_3 mon_thresh_def)
  have i: "\<not> mon_thresh_exceeded ?s" by (simp add: setup_fields)
  have d: "millis_297 (snd ?w) - last_log_millis ?s = 2000"
    by (simp add: snd_window_of env_at_def)
  have l: "(2000 :: u32) < log_millis" by (simp add: log_millis_def)
  have w: "last_log_millis ?s + log_millis < millis_297 (snd ?w)"
    by (simp add: snd_window_of env_at_def log_millis_def)
  have n: "length (logfile (snd (pass 128 example_fft ?s ?w))) = 1"
    using w by (simp add: pass_logfile [OF _ a window_of_full] snd_window_of env_at_def)
  have m: "last_log_millis (fst (pass 128 example_fft ?s ?w)) = 4294910296"
    using w by (simp add: pass_last_log [OF _ a window_of_full] snd_window_of env_at_def)
  show ?thesis using c i d l n m by blast
qed

lemma sample_600: "sample 600 600 600 = 600"
  by (simp add: sample_def signed_divide_int_def)

lemma logfile_loop_front: "logfile (snd (loop_front fft e s)) = []"
  by (simp add: loop_front_def alarm_logic_def out_app_def say_def Let_def case_prod_beta)

lemma logfile_loop_back:
  "logfile (snd (loop_back N e s)) =
     (if (mon_thresh_exceeded s \<or> last_log_millis s + log_millis < millis_297 e) \<and>
         open_ok e \<and> write_ok e
      then [\<lparr>rec_now = now_305 e, rec_tag = tag_of s,
             rec_spectrum = take (N div 2) (spectrum s), rec_raw = take N (capture s)\<rparr>]
      else [])"
  by (simp add: loop_back_def log_logic_def out_app_def say_def alert_logic_def Let_def
      case_prod_beta)

lemma logged_raw_first: "take 128 ((replicate 128 (9::i16))[0 := 600]) ! 0 = 600"
  by (simp only: nth_take nth_list_update_eq length_replicate)

lemma logged_raw_second: "take 128 ((replicate 128 (9::i16))[0 := 600]) ! 1 = 9"
  by (simp add: nth_list_update)

text \<open>
  Claim C5 fails on the program. The buffer is full of samples 9; the pass computes
  the spectrum from them and resets the cursor at line 244; the timer then fires
  once with readings 600; the record written at lines 311 to 319 carries that
  spectrum together with raw samples that begin with 600, the sample of the next
  window.
\<close>

theorem raw_log_read_after_reset:
  "unat (position (ticks 128 (setup_globals 128 0) (replicate 128 (9, 9, 9)))) = 128 \<and>
   capture (ticks 128 (setup_globals 128 0) (replicate 128 (9, 9, 9))) = replicate 128 9 \<and>
   map rec_spectrum (logfile (snd (loop_preempted 128 example_fft (env_at 10000 10 True)
     [(600, 600, 600)] (ticks 128 (setup_globals 128 0) (replicate 128 (9, 9, 9)))))) =
     [example_fft (replicate 128 9)] \<and>
   map (\<lambda>r. rec_raw r ! 0) (logfile (snd (loop_preempted 128 example_fft (env_at 10000 10 True)
     [(600, 600, 600)] (ticks 128 (setup_globals 128 0) (replicate 128 (9, 9, 9)))))) = [600] \<and>
   map (\<lambda>r. rec_raw r ! 1) (logfile (snd (loop_preempted 128 example_fft (env_at 10000 10 True)
     [(600, 600, 600)] (ticks 128 (setup_globals 128 0) (replicate 128 (9, 9, 9)))))) = [9]"
proof -
  let ?s = "ticks 128 (setup_globals 128 0) (replicate 128 (9, 9, 9))"
  let ?e = "env_at 10000 10 True"
  have s: "?s = setup_globals 128 0\<lparr>capture := replicate 128 9, position := 128\<rparr>"
    by (simp add: ticks_window [OF _ armed_setup] sample_of_def sample_9)
  have p: "unat (position ?s) = 128" by (simp add: s)
  have c: "capture ?s = replicate 128 9" by (simp add: s)
  have hot: "mon_thresh \<le>s maxChan_of (example_fft (replicate 128 9))"
    by (simp add: example_fft_def maxChan_of_replicate mon_freq_ch_max_def mon_thresh_def)
  let ?f = "fst (loop_front example_fft ?e ?s)"
  have f: "mon_thresh_exceeded ?f" "capture ?f = replicate 128 9" "position ?f = 0"
    "spectrum ?f = example_fft (replicate 128 9)"
    using hot by (simp_all add: loop_front_def alarm_logic_def Let_def case_prod_beta c)
  have i: "ticks 128 ?f [(600, 600, 600)] =
           ?f\<lparr>capture := (replicate 128 9)[0 := 600], position := 1\<rparr>"
    using f(2,3) by (simp add: ticks_Cons ticks_Nil ISR_def sample_600)
  have ok: "open_ok ?e" "write_ok ?e" "now_305 ?e = 10" by (simp_all add: env_at_def)
  have pre: "loop_preempted 128 example_fft ?e [(600, 600, 600)] ?s =
      (fst (loop_back 128 ?e (ticks 128 ?f [(600, 600, 600)])),
       out_app (snd (loop_front example_fft ?e ?s))
         (snd (loop_back 128 ?e (ticks 128 ?f [(600, 600, 600)]))))"
    by (simp only: loop_preempted_def p case_prod_beta Let_def simp_thms if_True)
  have r: "logfile (snd (loop_preempted 128 example_fft ?e [(600, 600, 600)] ?s)) =
        [\<lparr>rec_now = 10, rec_tag = tag_of (?f\<lparr>capture := (replicate 128 9)[0 := 600], position := 1\<rparr>),
          rec_spectrum = take 64 (example_fft (replicate 128 9)),
          rec_raw = take 128 ((replicate 128 9)[0 := 600])\<rparr>]"
    unfolding pre i
    by (simp add: out_app_def logfile_loop_front logfile_loop_back f ok)
  have sp: "take 64 (example_fft (replicate 128 (9::i16))) = example_fft (replicate 128 9)"
    by (simp add: example_fft_def)
  show ?thesis
    unfolding r by (simp add: p c sp logged_raw_first logged_raw_second)
qed

lemma ISR_loop_back:
  "fst (loop_back N e (ISR N r s)) = ISR N r (fst (loop_back N e s))"
  by (simp add: loop_back_def log_logic_def ISR_def Let_def case_prod_beta split: prod.splits)

lemma ticks_loop_back:
  "fst (loop_back N e (ticks N s mid)) = ticks N (fst (loop_back N e s)) mid"
proof (induction mid arbitrary: s rule: rev_induct)
  case Nil
  show ?case by (simp add: ticks_Nil)
next
  case (snoc r mid)
  show ?case
    by (simp add: ticks_append ticks_Cons ticks_Nil ISR_loop_back snoc.IH)
qed

lemma ticks_during_pass:
  "fst (loop_preempted N fft e mid s) =
     (if unat (position s) = N then ticks N (fst (loop N fft e s)) mid else s)"
  by (simp add: loop_def loop_preempted_def case_prod_beta ticks_Nil ticks_loop_back)

end
